theory Spec2Isabelle
  imports Complex_Main "HOL-Library.Product_Lexorder" "HOL-Library.Char_ord"
    "HOL-Library.List_Lexorder"
begin

section \<open>Calendar\<close>

text \<open>
  The script works on pandas timestamps that carry a calendar date only (the CSV columns
  are dates). A date is the triple (year, month, day); the lexicographic order on triples
  is the chronological order. A null date (NaT) is \<open>None\<close>.
\<close>

type_synonym date = "int \<times> int \<times> int"

definition is_leap :: "int \<Rightarrow> bool" where
  "is_leap y = (y mod 4 = 0 \<and> (y mod 100 \<noteq> 0 \<or> y mod 400 = 0))"

definition days_in_month :: "int \<Rightarrow> int \<Rightarrow> int" where
  "days_in_month y m =
     (if m = 2 then (if is_leap y then 29 else 28)
      else if m = 4 \<or> m = 6 \<or> m = 9 \<or> m = 11 then 30
      else 31)"

fun next_day :: "date \<Rightarrow> date" where
  "next_day (y, m, d) =
     (if d < days_in_month y m then (y, m, d + 1)
      else if m < 12 then (y, m + 1, 1)
      else (y + 1, 1, 1))"

fun prev_day :: "date \<Rightarrow> date" where
  "prev_day (y, m, d) =
     (if 1 < d then (y, m, d - 1)
      else if 1 < m then (y, m - 1, days_in_month y (m - 1))
      else (y - 1, 12, 31))"

primrec iterate :: "nat \<Rightarrow> ('a \<Rightarrow> 'a) \<Rightarrow> 'a \<Rightarrow> 'a" where
  "iterate 0 f x = x"
| "iterate (Suc n) f x = iterate n f (f x)"

text \<open>\<open>Timestamp + Timedelta(days = n)\<close>: n calendar days later (earlier when n is negative).\<close>

definition add_days :: "date \<Rightarrow> int \<Rightarrow> date" where
  "add_days d n = (if 0 \<le> n then iterate (nat n) next_day d else iterate (nat (- n)) prev_day d)"

text \<open>The day number of a date (the proleptic Gregorian ordinal), for differences in days.\<close>

definition days_before_year :: "int \<Rightarrow> int" where
  "days_before_year y = 365 * (y - 1) + (y - 1) div 4 - (y - 1) div 100 + (y - 1) div 400"

definition days_before_month :: "int \<Rightarrow> int \<Rightarrow> int" where
  "days_before_month y m = sum_list (map (days_in_month y) [1..m - 1])"

fun toordinal :: "date \<Rightarrow> int" where
  "toordinal (y, m, d) = days_before_year y + days_before_month y m + d"

text \<open>
  A monthly period (\<open>to_period('M')\<close>) is the number of its month, counted from year 0:
  consecutive calendar months are consecutive integers.
\<close>

type_synonym period = int

fun to_period :: "date \<Rightarrow> period" where
  "to_period (y, m, d) = y * 12 + (m - 1)"

definition to_timestamp :: "period \<Rightarrow> date" where
  "to_timestamp p = (p div 12, p mod 12 + 1, 1)"

definition period_days_in_month :: "period \<Rightarrow> int" where
  "period_days_in_month p = days_in_month (p div 12) (p mod 12 + 1)"

definition period_range :: "period \<Rightarrow> period \<Rightarrow> period list" where
  "period_range s e = [s..e]"

section \<open>Amounts\<close>

text \<open>
  Amounts of money are modelled as exact rationals. \<open>round2\<close> is Python's
  \<open>round(x, 2)\<close>: to the nearest hundredth, a tie going to the even one.
\<close>

definition round2 :: "rat \<Rightarrow> rat" where
  "round2 x =
     (let s = x * 100; f = \<lfloor>s\<rfloor>; r = s - of_int f
      in of_int (if r < 1 / 2 then f
                 else if 1 / 2 < r then f + 1
                 else if even f then f else f + 1) / 100)"

section \<open>Contracts and the expected schedule\<close>

record contract =
  contract_id :: nat
  company :: string
  contract_type :: string
  registration_date :: "date option"
  contract_tenor_days :: "int option"
  daily_payment_amount_usd :: rat
  contract_value_usd :: rat
  baseunit_productname :: string
  product_family :: string

text \<open>\<open>drop_duplicates(subset=['contract_id'])\<close>: the first row of every contract id stays.\<close>

fun drop_dups_from :: "nat list \<Rightarrow> contract list \<Rightarrow> contract list" where
  "drop_dups_from seen [] = []"
| "drop_dups_from seen (c # cs) =
     (if contract_id c \<in> set seen then drop_dups_from seen cs
      else c # drop_dups_from (contract_id c # seen) cs)"

definition drop_duplicates :: "contract list \<Rightarrow> contract list" where
  "drop_duplicates cs = drop_dups_from [] cs"

definition start_month :: "contract \<Rightarrow> period option" where
  "start_month c = map_option to_period (registration_date c)"

definition end_month :: "contract \<Rightarrow> period option" where
  "end_month c =
     (case registration_date c of
        None \<Rightarrow> None
      | Some d \<Rightarrow>
          (case contract_tenor_days c of
             None \<Rightarrow> None
           | Some t \<Rightarrow> Some (to_period (add_days d t))))"

record expected_row =
  e_contract_id :: nat
  e_company :: string
  e_month :: date
  e_expected_payment :: rat

definition expected_rows_of :: "contract \<Rightarrow> expected_row list" where
  "expected_rows_of c =
     (case start_month c of
        None \<Rightarrow> []
      | Some s \<Rightarrow>
          (case end_month c of
             None \<Rightarrow> []
           | Some e \<Rightarrow>
               map (\<lambda>m. \<lparr>e_contract_id = contract_id c,
                         e_company = company c,
                         e_month = to_timestamp m,
                         e_expected_payment =
                           round2 (daily_payment_amount_usd c * of_int (period_days_in_month m))\<rparr>)
                 (period_range s e)))"

definition expected_rows :: "contract list \<Rightarrow> expected_row list" where
  "expected_rows cs = concat (map expected_rows_of cs)"

text \<open>The schedule rows of one contract, in the order of the table.\<close>

definition schedule_of :: "contract list \<Rightarrow> contract \<Rightarrow> expected_row list" where
  "schedule_of cs c = filter (\<lambda>r. e_contract_id r = contract_id c) (expected_rows cs)"

definition c9_contract :: contract where
  "c9_contract =
     \<lparr>contract_id = 1, company = ''Wakanda'', contract_type = ''FINANCED'',
      registration_date = Some (2024, 1, 1), contract_tenor_days = Some 90,
      daily_payment_amount_usd = 10, contract_value_usd = 900,
      baseunit_productname = ''Lantern'', product_family = ''Solar''\<rparr>"

text \<open>A small contract table with a repeated contract id and a contract with no date.\<close>

definition example_raw_contracts :: "contract list" where
  "example_raw_contracts =
     [c9_contract,
      c9_contract\<lparr>contract_tenor_days := Some 10, daily_payment_amount_usd := 3\<rparr>,
      c9_contract\<lparr>contract_id := 2, registration_date := None\<rparr>]"


section \<open>Payments and the matched schedule\<close>

record payment =
  p_contract_id :: nat
  pay_month :: "date option"
  p_total_paid :: "rat option"

definition fillna0 :: "rat option \<Rightarrow> rat" where
  "fillna0 x = (case x of None \<Rightarrow> 0 | Some v \<Rightarrow> v)"

text \<open>
  The left join of \<open>company\<close> onto the payments, on \<open>contract_id\<close>: the company of the
  contract with that id, null when there is none.
\<close>

definition contract_of :: "contract list \<Rightarrow> nat \<Rightarrow> contract option" where
  "contract_of cs i = find (\<lambda>c. contract_id c = i) cs"

definition payment_company :: "contract list \<Rightarrow> payment \<Rightarrow> string option" where
  "payment_company cs p = map_option company (contract_of cs (p_contract_id p))"

definition payment_month :: "payment \<Rightarrow> date option" where
  "payment_month p = map_option (\<lambda>d. to_timestamp (to_period d)) (pay_month p)"

text \<open>
  \<open>actual_df\<close>: the payments summed per (contract_id, company, month) and rounded; a
  payment with a null company or month is in no group, and a key with no payment has no
  row.
\<close>

definition actual_df :: "contract list \<Rightarrow> payment list \<Rightarrow> nat \<Rightarrow> string \<Rightarrow> date \<Rightarrow> rat option" where
  "actual_df cs ps i co m =
     (let g = filter (\<lambda>p. p_contract_id p = i \<and> payment_company cs p = Some co \<and>
                            payment_month p = Some m) ps
      in if g = [] then None
         else Some (round2 (sum_list (map (\<lambda>p. fillna0 (p_total_paid p)) g))))"

record trend_row =
  t_contract_id :: nat
  t_company :: string
  t_month :: date
  expected_payment :: rat
  total_paid :: rat

definition merge_actual :: "contract list \<Rightarrow> payment list \<Rightarrow> expected_row \<Rightarrow> trend_row" where
  "merge_actual cs ps e =
     \<lparr>t_contract_id = e_contract_id e, t_company = e_company e, t_month = e_month e,
      expected_payment = e_expected_payment e,
      total_paid = round2 (fillna0 (actual_df cs ps (e_contract_id e) (e_company e) (e_month e)))\<rparr>"

definition trend_df :: "contract list \<Rightarrow> payment list \<Rightarrow> trend_row list" where
  "trend_df cs ps = map (merge_actual cs ps) (expected_rows cs)"

text \<open>First occurrences, in order (\<open>unique()\<close>).\<close>

definition unique :: "'a list \<Rightarrow> 'a list" where
  "unique xs = fold (\<lambda>x acc. if x \<in> set acc then acc else acc @ [x]) xs []"

definition financed_contracts :: "contract list \<Rightarrow> nat list" where
  "financed_contracts cs =
     unique (map contract_id (filter (\<lambda>c. contract_type c = ''FINANCED'') cs))"

definition trend_financed :: "contract list \<Rightarrow> payment list \<Rightarrow> trend_row list" where
  "trend_financed cs ps =
     filter (\<lambda>r. t_contract_id r \<in> set (financed_contracts cs)) (trend_df cs ps)"

section \<open>Portfolio at risk\<close>

datatype bucket = Current | PAR30 | PAR60 | PAR90 | PAR120

definition par_bucket :: "int \<Rightarrow> bucket" where
  "par_bucket months =
     (if 4 \<le> months then PAR120
      else if months = 3 then PAR90
      else if months = 2 then PAR60
      else if months = 1 then PAR30
      else Current)"

record par_row = trend_row +
  missed_payment :: bool
  consec_missed :: int

record bucket_row = par_row +
  PAR_bucket :: bucket

definition sort_values :: "trend_row list \<Rightarrow> trend_row list" where
  "sort_values rows = sort_key (\<lambda>r. (t_contract_id r, t_month r)) rows"

definition add_missed :: "trend_row \<Rightarrow> par_row" where
  "add_missed r =
     \<lparr>t_contract_id = t_contract_id r, t_company = t_company r, t_month = t_month r,
      expected_payment = expected_payment r, total_paid = total_paid r,
      missed_payment = (total_paid r < expected_payment r), consec_missed = 0\<rparr>"

text \<open>
  The inner loop for one contract: the rows of the contract, in the order of the table,
  with the counter carried from row to row; the other rows are not touched.
\<close>

fun walk_contract :: "nat \<Rightarrow> int \<Rightarrow> par_row list \<Rightarrow> par_row list" where
  "walk_contract c missed [] = []"
| "walk_contract c missed (r # rs) =
     (if t_contract_id r = c
      then (let missed' = (if missed_payment r then missed + 1 else 0)
            in r\<lparr>consec_missed := missed'\<rparr> # walk_contract c missed' rs)
      else r # walk_contract c missed rs)"

definition assign_consec :: "par_row list \<Rightarrow> par_row list" where
  "assign_consec rows =
     fold (\<lambda>c t. walk_contract c 0 t) (unique (map t_contract_id rows)) rows"

definition add_bucket :: "par_row \<Rightarrow> bucket_row" where
  "add_bucket r =
     \<lparr>t_contract_id = t_contract_id r, t_company = t_company r, t_month = t_month r,
      expected_payment = expected_payment r, total_paid = total_paid r,
      missed_payment = missed_payment r, consec_missed = consec_missed r,
      PAR_bucket = par_bucket (consec_missed r)\<rparr>"

definition par_rows :: "trend_row list \<Rightarrow> bucket_row list" where
  "par_rows rows = map add_bucket (assign_consec (map add_missed (sort_values rows)))"

text \<open>
  The counter as the specification words it, over the (total_paid, expected_payment) pairs
  of one contract in month order, and the table from the counter to the bucket.
\<close>

fun miss_counter :: "int \<Rightarrow> (rat \<times> rat) list \<Rightarrow> int list" where
  "miss_counter n [] = []"
| "miss_counter n ((paid, expected) # xs) =
     (if expected \<le> paid then 0 # miss_counter 0 xs else (n + 1) # miss_counter (n + 1) xs)"

definition bucket_of_counter :: "int \<Rightarrow> bucket" where
  "bucket_of_counter n =
     (if n = 0 then Current else if n = 1 then PAR30 else if n = 2 then PAR60
      else if n = 3 then PAR90 else PAR120)"

definition example_trend :: "trend_row list" where
  "example_trend =
     [\<lparr>t_contract_id = 2, t_company = ''Wakanda'', t_month = (2024, 2, 1),
       expected_payment = 290, total_paid = 0\<rparr>,
      \<lparr>t_contract_id = 1, t_company = ''Wakanda'', t_month = (2024, 3, 1),
       expected_payment = 310, total_paid = 310\<rparr>,
      \<lparr>t_contract_id = 2, t_company = ''Wakanda'', t_month = (2024, 1, 1),
       expected_payment = 310, total_paid = 100\<rparr>,
      \<lparr>t_contract_id = 1, t_company = ''Wakanda'', t_month = (2024, 1, 1),
       expected_payment = 310, total_paid = 0\<rparr>,
      \<lparr>t_contract_id = 1, t_company = ''Wakanda'', t_month = (2024, 2, 1),
       expected_payment = 290, total_paid = 10\<rparr>]"

section \<open>Ratios\<close>

text \<open>
  A ratio column is a column of floats. What a division by zero leaves there is part of
  the behaviour: pandas gives NaN for 0/0 and an infinity for x/0, and raises nothing.
\<close>

datatype fval = Fin rat | PosInf | NegInf | NaN

definition fdiv :: "rat \<Rightarrow> rat \<Rightarrow> fval" where
  "fdiv a b =
     (if b \<noteq> 0 then Fin (a / b)
      else if 0 < a then PosInf
      else if a < 0 then NegInf
      else NaN)"

fun times100 :: "fval \<Rightarrow> fval" where
  "times100 (Fin x) = Fin (x * 100)"
| "times100 PosInf = PosInf"
| "times100 NegInf = NegInf"
| "times100 NaN = NaN"

fun fround2 :: "fval \<Rightarrow> fval" where
  "fround2 (Fin x) = Fin (round2 x)"
| "fround2 PosInf = PosInf"
| "fround2 NegInf = NegInf"
| "fround2 NaN = NaN"

section \<open>Collection rate and repayment rate\<close>

text \<open>The keys of a \<open>groupby\<close>: each key once, in ascending order.\<close>

definition group_keys :: "('r \<Rightarrow> 'k::linorder) \<Rightarrow> 'r list \<Rightarrow> 'k list" where
  "group_keys key rows = sort (remdups (map key rows))"

record summary_row =
  s_company :: string
  s_month :: date
  s_expected_payment :: rat
  s_total_paid :: rat
  collection_rate :: fval

definition summarise :: "trend_row list \<Rightarrow> string \<times> date \<Rightarrow> summary_row" where
  "summarise rows k =
     (let g = filter (\<lambda>r. (t_company r, t_month r) = k) rows;
          e = sum_list (map expected_payment g);
          p = sum_list (map total_paid g)
      in \<lparr>s_company = fst k, s_month = snd k,
          s_expected_payment = round2 e, s_total_paid = round2 p,
          collection_rate = fround2 (times100 (fdiv p e))\<rparr>)"

definition trend_summary :: "trend_row list \<Rightarrow> summary_row list" where
  "trend_summary rows =
     filter (\<lambda>s. s_month s \<le> (2025, 12, 31))
       (map (summarise rows) (group_keys (\<lambda>r. (t_company r, t_month r)) rows))"

record repayment_row = summary_row +
  cum_total_paid :: rat
  cum_expected_payment :: rat
  repayment_rate :: fval

text \<open>The running sums per company, along the rows in the order given.\<close>

fun cumsum_by_company :: "(string \<Rightarrow> rat \<times> rat) \<Rightarrow> summary_row list \<Rightarrow> repayment_row list" where
  "cumsum_by_company acc [] = []"
| "cumsum_by_company acc (s # ss) =
     (let p = fst (acc (s_company s)) + s_total_paid s;
          e = snd (acc (s_company s)) + s_expected_payment s
      in summary_row.extend s (repayment_row.fields p e (fround2 (times100 (fdiv p e))))
         # cumsum_by_company (acc(s_company s := (p, e))) ss)"

definition repayment_trend :: "trend_row list \<Rightarrow> repayment_row list" where
  "repayment_trend rows =
     cumsum_by_company (\<lambda>_. (0, 0))
       (sort_key (\<lambda>s. (s_company s, s_month s)) (trend_summary rows))"

section \<open>PAR amounts and percentages\<close>

definition par_amount :: "bucket_row list \<Rightarrow> string \<times> date \<Rightarrow> bucket \<Rightarrow> rat" where
  "par_amount rows k b =
     sum_list (map expected_payment
       (filter (\<lambda>r. (t_company r, t_month r) = k \<and> PAR_bucket r = b) rows))"

definition par_buckets :: "bucket list" where
  "par_buckets = [PAR30, PAR60, PAR90, PAR120, Current]"

definition Total_PAR :: "bucket_row list \<Rightarrow> string \<times> date \<Rightarrow> rat" where
  "Total_PAR rows k = sum_list (map (par_amount rows k) par_buckets)"

text \<open>\<open>np.where(Total_PAR > 0, bucket / Total_PAR * 100, 0).round(2)\<close>\<close>

definition par_pct :: "bucket_row list \<Rightarrow> string \<times> date \<Rightarrow> bucket \<Rightarrow> fval" where
  "par_pct rows k b =
     fround2 (if 0 < Total_PAR rows k
              then times100 (fdiv (par_amount rows k b) (Total_PAR rows k))
              else Fin 0)"

section \<open>Vintage step\<close>

text \<open>
  The left join of the contract's fields onto the table, on \<open>contract_id\<close>. The table has
  a column \<open>company\<close> already, so the join leaves \<open>company_x\<close> (here \<open>t_company\<close>) and
  \<open>company_y\<close>, and the guard that follows joins \<open>company\<close> once more (\<open>v_company\<close>).
\<close>

record vintage_row = bucket_row +
  vintage :: "period option"
  v_registration_date :: "date option"
  v_contract_tenor_days :: "int option"
  company_y :: "string option"
  v_company :: "string option"
  months_on_book :: "int option"
  tenor_months :: "int option"

definition vintage_merge :: "contract list \<Rightarrow> bucket_row \<Rightarrow> vintage_row" where
  "vintage_merge cs r =
     (let c = contract_of cs (t_contract_id r);
          reg = Option.bind c registration_date;
          tenor = Option.bind c contract_tenor_days;
          co = map_option company c
      in bucket_row.extend r
           (vintage_row.fields (map_option to_period reg) reg tenor co co
              (map_option (\<lambda>d. (toordinal (t_month r) - toordinal d) div 30) reg)
              (map_option (\<lambda>t. t div 30) tenor)))"

definition on_book :: "vintage_row \<Rightarrow> bool" where
  "on_book r =
     (case months_on_book r of
        None \<Rightarrow> False
      | Some m \<Rightarrow>
          (case tenor_months r of
             None \<Rightarrow> False
           | Some t \<Rightarrow> 0 \<le> m \<and> m \<le> t))"

definition vintage_rows :: "contract list \<Rightarrow> bucket_row list \<Rightarrow> vintage_row list" where
  "vintage_rows cs rows = filter on_book (map (vintage_merge cs) rows)"

record product_row = vintage_row +
  r_baseunit_productname :: "string option"
  r_product_family :: "string option"

definition product_merge :: "contract list \<Rightarrow> vintage_row \<Rightarrow> product_row" where
  "product_merge cs r =
     vintage_row.extend r
       (product_row.fields
          (map_option baseunit_productname (contract_of cs (t_contract_id r)))
          (map_option product_family (contract_of cs (t_contract_id r))))"

text \<open>\<open>trend_df\<close> as it stands after section 6.7, when sections 6.8 and 7 read it.\<close>

definition trend_final :: "contract list \<Rightarrow> payment list \<Rightarrow> product_row list" where
  "trend_final cs ps =
     map (product_merge cs) (vintage_rows cs (par_rows (trend_financed cs ps)))"

section \<open>First payment default\<close>

definition FPD_CUTOFF_DAY :: int where
  "FPD_CUTOFF_DAY = 5"

text \<open>
  \<open>d + MonthBegin(n)\<close> for \<open>n \<ge> 1\<close>: from the first of a month, n months on; from any
  other day, the first of the next month counts as the first step.
\<close>

fun month_begin :: "int \<Rightarrow> date \<Rightarrow> date" where
  "month_begin n (y, m, d) =
     (if d = 1 then to_timestamp (to_period (y, m, d) + n)
      else to_timestamp (to_period (y, m, d) + 1 + (n - 1)))"

fun replace_day1 :: "date \<Rightarrow> date" where
  "replace_day1 (y, m, d) = (y, m, 1)"

definition get_fpd_month :: "date option \<Rightarrow> date option" where
  "get_fpd_month reg_date =
     (case reg_date of
        None \<Rightarrow> None
      | Some d \<Rightarrow>
          (if snd (snd d) \<le> FPD_CUTOFF_DAY then Some (replace_day1 (month_begin 1 d))
           else Some (replace_day1 (month_begin 2 d))))"

definition financed :: "contract list \<Rightarrow> contract list" where
  "financed cs = filter (\<lambda>c. contract_type c = ''FINANCED'') cs"

definition fpd_payments :: "contract list \<Rightarrow> payment list \<Rightarrow> (payment \<times> contract) list" where
  "fpd_payments cs ps =
     filter (\<lambda>(p, c). case payment_month p of
                         None \<Rightarrow> False
                       | Some m \<Rightarrow> get_fpd_month (registration_date c) = Some m)
       (concat (map (\<lambda>p. map (\<lambda>c. (p, c))
                            (filter (\<lambda>c. p_contract_id p = contract_id c \<and>
                                          payment_company cs p = Some (company c))
                               (financed cs))) ps))"

definition fpd_paid :: "contract list \<Rightarrow> payment list \<Rightarrow> nat \<Rightarrow> rat option" where
  "fpd_paid cs ps i =
     (let g = filter (\<lambda>(p, c). p_contract_id p = i) (fpd_payments cs ps)
      in if g = [] then None
         else Some (sum_list (map (\<lambda>(p, c). fillna0 (p_total_paid p)) g)))"

definition fpd_expected :: "contract list \<Rightarrow> payment list \<Rightarrow> (product_row \<times> contract) list" where
  "fpd_expected cs ps =
     concat (map (\<lambda>r. map (\<lambda>c. (r, c))
                          (filter (\<lambda>c. t_contract_id r = contract_id c \<and>
                                        v_company r = Some (company c) \<and>
                                        get_fpd_month (registration_date c) = Some (t_month r))
                             (financed cs)))
               (trend_final cs ps))"

record fpd_row =
  f_contract_id :: nat
  f_expected_payment :: rat
  f_company :: string
  f_registration_date :: "date option"
  fpd_month :: "date option"
  fpd_total_paid :: rat
  FPD_flag :: bool
  reg_month :: "date option"
  FPD_zero_flag :: bool

text \<open>
  One row of \<open>fpd_final\<close>: the schedule row at the FPD month joined with its contract,
  the payments of the FPD month (0 when there is none) and the two flags.
\<close>

definition fpd_row_of :: "contract list \<Rightarrow> payment list \<Rightarrow> product_row \<Rightarrow> contract \<Rightarrow> fpd_row" where
  "fpd_row_of cs ps r c =
     \<lparr>f_contract_id = t_contract_id r,
      f_expected_payment = expected_payment r,
      f_company = company c,
      f_registration_date = v_registration_date r,
      fpd_month = get_fpd_month (registration_date c),
      fpd_total_paid = fillna0 (fpd_paid cs ps (t_contract_id r)),
      FPD_flag = (fillna0 (fpd_paid cs ps (t_contract_id r)) < expected_payment r),
      reg_month = map_option (\<lambda>d. to_timestamp (to_period d)) (v_registration_date r),
      FPD_zero_flag = (fillna0 (fpd_paid cs ps (t_contract_id r)) = 0)\<rparr>"

definition fpd_final :: "contract list \<Rightarrow> payment list \<Rightarrow> fpd_row list" where
  "fpd_final cs ps = map (\<lambda>(r, c). fpd_row_of cs ps r c) (fpd_expected cs ps)"

record fpd_rate_row =
  contracts :: nat
  FPD_count :: nat
  FPD_rate :: fval
  FPD_zero_count :: nat
  FPD_zero_rate :: fval

text \<open>
  The row of \<open>FPD_rate_trend\<close> for a key (company, reg_month, fpd_month); there is a row
  only for a key that some row of \<open>fpd_final\<close> has.
\<close>

definition fpd_group :: "contract list \<Rightarrow> payment list \<Rightarrow> string \<times> date \<times> date \<Rightarrow> fpd_row list" where
  "fpd_group cs ps k =
     filter (\<lambda>r. (f_company r, reg_month r, fpd_month r) =
                  (fst k, Some (fst (snd k)), Some (snd (snd k))))
       (fpd_final cs ps)"

definition FPD_rate_trend :: "contract list \<Rightarrow> payment list \<Rightarrow> string \<times> date \<times> date \<Rightarrow> fpd_rate_row option" where
  "FPD_rate_trend cs ps k =
     (let g = fpd_group cs ps k;
          n = length g;
          d = length (filter FPD_flag g);
          z = length (filter FPD_zero_flag g)
      in if g = [] then None
         else Some \<lparr>contracts = n, FPD_count = d,
                    FPD_rate = fround2 (times100 (fdiv (of_nat d) (of_nat n))),
                    FPD_zero_count = z,
                    FPD_zero_rate = fround2 (times100 (fdiv (of_nat z) (of_nat n)))\<rparr>)"

section \<open>Cash flow\<close>




section \<open>Example portfolio\<close>

text \<open>
  A financed contract whose schedule (January and February 2024) ends before its FPD month
  (March 2024).
\<close>

definition short_contract :: contract where
  "short_contract =
     c9_contract\<lparr>contract_id := 4, registration_date := Some (2024, 1, 10),
                  contract_tenor_days := Some 30\<rparr>"

definition example_contracts :: "contract list" where
  "example_contracts =
     [c9_contract,
      c9_contract\<lparr>contract_id := 3, contract_type := ''CASH'',
                  contract_tenor_days := Some 30, daily_payment_amount_usd := 5\<rparr>,
      short_contract,
      c9_contract\<lparr>contract_id := 5, company := ''Zero'', daily_payment_amount_usd := 0,
                  contract_tenor_days := Some 0\<rparr>]"

definition example_payments :: "payment list" where
  "example_payments =
     [\<lparr>p_contract_id = 1, pay_month = Some (2024, 2, 1), p_total_paid = Some 100\<rparr>,
      \<lparr>p_contract_id = 1, pay_month = Some (2024, 2, 15), p_total_paid = Some 50\<rparr>,
      \<lparr>p_contract_id = 3, pay_month = Some (2024, 1, 20), p_total_paid = Some 155\<rparr>,
      \<lparr>p_contract_id = 1, pay_month = Some (2024, 1, 5), p_total_paid = None\<rparr>]"

text \<open>One financed contract that owes nothing per day, and no payment.\<close>

definition zero_contracts :: "contract list" where
  "zero_contracts =
     [c9_contract\<lparr>contract_id := 5, company := ''Zero'', daily_payment_amount_usd := 0,
                  contract_tenor_days := Some 0\<rparr>]"




text \<open>The columns a row has from the matched schedule on, whatever was added since.\<close>

definition base5 :: "'a trend_row_scheme \<Rightarrow> nat \<times> string \<times> date \<times> rat \<times> rat" where
  "base5 r = (t_contract_id r, t_company r, t_month r, expected_payment r, total_paid r)"

text \<open>
  For one contract: whether the table that section 6.8 reads has a row of the contract at
  its FPD month, the sum of its payments that fall in the FPD month, and the key under
  which the FPD rates group it.
\<close>

definition has_fpd_row :: "contract list \<Rightarrow> payment list \<Rightarrow> contract \<Rightarrow> bool" where
  "has_fpd_row cs ps c =
     (\<exists>r \<in> set (trend_final cs ps).
        t_contract_id r = contract_id c \<and>
        get_fpd_month (registration_date c) = Some (t_month r))"

definition fpd_sum :: "payment list \<Rightarrow> contract \<Rightarrow> rat" where
  "fpd_sum ps c =
     sum_list (map (\<lambda>p. fillna0 (p_total_paid p))
       (filter (\<lambda>p. p_contract_id p = contract_id c \<and>
                     (case payment_month p of
                        None \<Rightarrow> False
                      | Some m \<Rightarrow> get_fpd_month (registration_date c) = Some m)) ps))"

definition fpd_key :: "contract \<Rightarrow> string \<times> date option \<times> date option" where
  "fpd_key c =
     (company c, map_option (\<lambda>d. to_timestamp (to_period d)) (registration_date c),
      get_fpd_month (registration_date c))"

definition flagged_FPD :: "contract list \<Rightarrow> payment list \<Rightarrow> contract \<Rightarrow> bool" where
  "flagged_FPD cs ps c =
     (\<exists>row \<in> set (fpd_final cs ps). f_contract_id row = contract_id c \<and> FPD_flag row)"

definition flagged_FPD_zero :: "contract list \<Rightarrow> payment list \<Rightarrow> contract \<Rightarrow> bool" where
  "flagged_FPD_zero cs ps c =
     (\<exists>row \<in> set (fpd_final cs ps). f_contract_id row = contract_id c \<and> FPD_zero_flag row)"

section \<open>Projection and valuation\<close>

text \<open>
  The twelve months of the projection, from August 2025 (\<open>date_range\<close> with
  \<open>periods=12, freq='MS'\<close>).
\<close>

definition projection_months :: "date list" where
  "projection_months = map (\<lambda>i. to_timestamp (to_period (2025, 8, 1) + i)) [0..11]"

record projection_row =
  j_month :: date
  j_contract_id :: nat
  j_company :: string
  j_expected_payment :: rat

definition active :: "contract \<Rightarrow> date \<Rightarrow> bool" where
  "active c month =
     (case registration_date c of
        None \<Rightarrow> False
      | Some reg_date \<Rightarrow>
          (case contract_tenor_days c of
             None \<Rightarrow> False
           | Some tenor_days \<Rightarrow> reg_date \<le> month \<and> month \<le> add_days reg_date tenor_days))"

text \<open>The inner loop: the rows that one projection month adds, one per active contract.\<close>

definition projection_block :: "contract list \<Rightarrow> date \<Rightarrow> projection_row list" where
  "projection_block cs month =
     concat (map (\<lambda>c.
       if active c month
       then [\<lparr>j_month = month, j_contract_id = contract_id c, j_company = company c,
              j_expected_payment =
                daily_payment_amount_usd c *
                of_int (days_in_month (fst month) (fst (snd month)))\<rparr>]
       else []) cs)"

definition projection_rows :: "contract list \<Rightarrow> projection_row list" where
  "projection_rows cs = concat (map (projection_block cs) projection_months)"

datatype error = KeyError | MergeError

text \<open>
  \<open>monthly_projection\<close>: the projected rows summed per month, one row for each month that
  has a projected row, in ascending order. With no projected row at all the frame has no
  column \<open>month\<close> and \<open>groupby('month')\<close> raises.
\<close>

definition monthly_projection :: "contract list \<Rightarrow> error + (date \<times> rat) list" where
  "monthly_projection cs =
     (let rows = projection_rows cs
      in if rows = [] then Inl KeyError
         else Inr (map (\<lambda>m. (m, round2 (sum_list (map j_expected_payment
                                             (filter (\<lambda>r. j_month r = m) rows)))))
                     (group_keys j_month rows)))"

text \<open>The rates are floats in the script; they are modelled as the reals they approximate.\<close>

definition discount_rate :: real where
  "discount_rate = 15 / 100"

definition monthly_discount :: real where
  "monthly_discount = (1 + discount_rate) powr (1 / 12) - 1"

definition discount_factor :: "nat \<Rightarrow> real" where
  "discount_factor i = (1 + monthly_discount) powr (- real i)"

definition discounted_cashflow :: "(date \<times> rat) list \<Rightarrow> real list" where
  "discounted_cashflow mp =
     map (\<lambda>(i, m, e). of_rat e * discount_factor i) (zip [1..<length mp + 1] mp)"

definition portfolio_value :: "contract list \<Rightarrow> error + real" where
  "portfolio_value cs =
     (case monthly_projection cs of
        Inl e \<Rightarrow> Inl e
      | Inr mp \<Rightarrow> Inr (sum_list (discounted_cashflow mp)))"

text \<open>
  The specification's reading: the expected cash flow of a window month, and the value
  with the i-th month of the twelve-month window discounted by the i-th factor.
\<close>

definition month_total :: "contract list \<Rightarrow> date \<Rightarrow> rat" where
  "month_total cs m =
     sum_list (map (\<lambda>c. daily_payment_amount_usd c * of_int (days_in_month (fst m) (fst (snd m))))
       (filter (\<lambda>c. active c m) cs))"

definition window_value :: "contract list \<Rightarrow> real" where
  "window_value cs =
     sum_list (map (\<lambda>(i, m). of_rat (round2 (month_total cs m)) * discount_factor i)
       (zip [1..<13] projection_months))"

definition active_months :: "contract list \<Rightarrow> date list" where
  "active_months cs = filter (\<lambda>m. \<exists>c \<in> set cs. active c m) projection_months"

text \<open>A contract that is active in September 2025 only, the second month of the window.\<close>

definition september_contracts :: "contract list" where
  "september_contracts =
     [c9_contract\<lparr>registration_date := Some (2025, 8, 15), contract_tenor_days := Some 30\<rparr>]"

text \<open>A contract that is active in every month of the window.\<close>

definition long_contracts :: "contract list" where
  "long_contracts =
     [c9_contract\<lparr>registration_date := Some (2025, 7, 1), contract_tenor_days := Some 400\<rparr>]"

section \<open>Joining company onto a table\<close>

text \<open>
  Whether a join leaves a column named \<open>company\<close> depends on the column names of both
  tables, so the two joins of company are modelled on tables with named columns: a frame
  is its list of column names and its rows, each row the list of its cells in the order of
  the columns.
\<close>

datatype cell = Null | Text string | Number rat | Ident nat | Stamp date

record frame =
  columns :: "string list"
  frame_rows :: "cell list list"

fun index_of :: "string \<Rightarrow> string list \<Rightarrow> nat option" where
  "index_of c [] = None"
| "index_of c (d # ds) = (if c = d then Some 0 else map_option Suc (index_of c ds))"

text \<open>The cell of a row in a column of the frame.\<close>

definition cell_of :: "frame \<Rightarrow> cell list \<Rightarrow> string \<Rightarrow> cell" where
  "cell_of f r c =
     (case index_of c (columns f) of
        None \<Rightarrow> Null
      | Some i \<Rightarrow> if i < length r then r ! i else Null)"

text \<open>\<open>df[[c1, ..., cn]]\<close>: a column that the frame does not have raises.\<close>

definition project :: "string list \<Rightarrow> frame \<Rightarrow> error + frame" where
  "project cols f =
     (if set cols \<subseteq> set (columns f)
      then Inr \<lparr>columns = cols, frame_rows = map (\<lambda>r. map (cell_of f r) cols) (frame_rows f)\<rparr>
      else Inl KeyError)"

text \<open>
  \<open>left.merge(right, on=key, how='left')\<close>: a column other than the key that both
  frames have is renamed with the suffixes \<open>_x\<close> and \<open>_y\<close>; a left row with no match
  keeps nulls in the right columns; a missing key raises, and so do suffixes that produce
  a column name twice.
\<close>

definition merge_left :: "frame \<Rightarrow> frame \<Rightarrow> string \<Rightarrow> error + frame" where
  "merge_left l r key =
     (if key \<notin> set (columns l) \<or> key \<notin> set (columns r) then Inl KeyError
      else
        (let overlap = filter (\<lambda>c. c \<noteq> key \<and> c \<in> set (columns r)) (columns l);
             lcols = map (\<lambda>c. if c \<in> set overlap then c @ ''_x'' else c) (columns l);
             rrest = filter (\<lambda>c. c \<noteq> key) (columns r);
             rcols = map (\<lambda>c. if c \<in> set overlap then c @ ''_y'' else c) rrest;
             out = concat (map (\<lambda>lr.
                     (let ms = filter (\<lambda>rr. cell_of r rr key = cell_of l lr key) (frame_rows r)
                      in if ms = [] then [lr @ map (\<lambda>c. Null) rrest]
                         else map (\<lambda>rr. lr @ map (cell_of r rr) rrest) ms)) (frame_rows l))
         in if distinct (lcols @ rcols) then Inr \<lparr>columns = lcols @ rcols, frame_rows = out\<rparr>
            else Inl MergeError))"

text \<open>\<open>df.drop(columns=cols, errors='ignore')\<close>\<close>

definition drop_columns :: "string list \<Rightarrow> frame \<Rightarrow> frame" where
  "drop_columns cols f =
     \<lparr>columns = filter (\<lambda>c. c \<notin> set cols) (columns f),
      frame_rows = map (\<lambda>r. map (cell_of f r) (filter (\<lambda>c. c \<notin> set cols) (columns f))) (frame_rows f)\<rparr>"

text \<open>\<open>df[c].isnull().all()\<close>\<close>

definition isnull_all :: "frame \<Rightarrow> string \<Rightarrow> bool" where
  "isnull_all f c = list_all (\<lambda>r. cell_of f r c = Null) (frame_rows f)"

text \<open>Section 5: company onto the payments, one join.\<close>

definition payments_with_company :: "frame \<Rightarrow> frame \<Rightarrow> error + frame" where
  "payments_with_company payments_df contracts_df =
     (case project [''contract_id'', ''company''] contracts_df of
        Inl e \<Rightarrow> Inl e
      | Inr narrow \<Rightarrow> merge_left payments_df narrow ''contract_id'')"

text \<open>Section 6.6: the contract's fields onto the schedule table.\<close>

definition vintage_join :: "frame \<Rightarrow> frame \<Rightarrow> error + frame" where
  "vintage_join trend contracts_df =
     (case project [''contract_id'', ''vintage'', ''registration_date'',
                    ''contract_tenor_days'', ''company''] contracts_df of
        Inl e \<Rightarrow> Inl e
      | Inr wide \<Rightarrow> merge_left trend wide ''contract_id'')"

text \<open>
  The guard that follows it: without a column \<open>company\<close>, or with one that is all null,
  company is joined again from \<open>contract_id\<close> and \<open>company\<close> alone.
\<close>

definition company_guard :: "frame \<Rightarrow> frame \<Rightarrow> error + frame" where
  "company_guard trend contracts_df =
     (if ''company'' \<notin> set (columns trend) \<or> isnull_all trend ''company''
      then (case project [''contract_id'', ''company''] contracts_df of
              Inl e \<Rightarrow> Inl e
            | Inr narrow \<Rightarrow> merge_left (drop_columns [''company''] trend) narrow ''contract_id'')
      else Inr trend)"

text \<open>The columns of the schedule table when section 6.6 joins onto it.\<close>

definition trend_columns :: "string list" where
  "trend_columns =
     [''contract_id'', ''company'', ''month'', ''expected_payment'', ''total_paid'',
      ''missed_payment'', ''consec_missed'', ''PAR_bucket'']"

text \<open>
  The claim's reading of section 5: the join of company onto the payments followed by the
  guard.
\<close>

definition payments_with_retry :: "frame \<Rightarrow> frame \<Rightarrow> error + frame" where
  "payments_with_retry payments_df contracts_df =
     (case payments_with_company payments_df contracts_df of
        Inl e \<Rightarrow> Inl e
      | Inr merged \<Rightarrow> company_guard merged contracts_df)"

definition example_contract_frame :: frame where
  "example_contract_frame =
     \<lparr>columns = [''contract_id'', ''company'', ''contract_type'', ''registration_date'',
                 ''contract_tenor_days'', ''vintage''],
      frame_rows = [[Ident 1, Text ''Wakanda'', Text ''FINANCED'', Stamp (2024, 1, 1), Number 90,
               Number 24288]]\<rparr>"

definition example_trend_frame :: frame where
  "example_trend_frame =
     \<lparr>columns = trend_columns,
      frame_rows = [[Ident 1, Text ''Wakanda'', Stamp (2024, 1, 1), Number 310, Number 0,
               Number 1, Number 1, Text ''PAR30'']]\<rparr>"

text \<open>A payment table that has a column \<open>company\<close> of its own.\<close>

definition example_payment_frame :: frame where
  "example_payment_frame =
     \<lparr>columns = [''contract_id'', ''pay_month'', ''total_paid'', ''company''],
      frame_rows = [[Ident 1, Stamp (2024, 2, 1), Number 100, Text ''Wakanda'']]\<rparr>"

section \<open>Properties of the expected schedule\<close>

lemma to_period_to_timestamp: "to_period (to_timestamp p) = p"
  by (simp add: to_timestamp_def)

lemma inj_to_timestamp: "inj to_timestamp"
  by (rule inj_on_inverseI [where g = to_period]) (rule to_period_to_timestamp)

lemma drop_dups_from_subset: "set (drop_dups_from seen cs) \<subseteq> set cs"
  by (induction cs arbitrary: seen) auto

lemma drop_dups_from_fresh: "c \<in> set (drop_dups_from seen cs) \<Longrightarrow> contract_id c \<notin> set seen"
proof (induction cs arbitrary: seen)
  case Nil
  then show ?case by simp
next
  case (Cons a cs)
  show ?case
  proof (cases "contract_id a \<in> set seen")
    case True
    then show ?thesis using Cons by simp
  next
    case False
    then have "c = a \<or> c \<in> set (drop_dups_from (contract_id a # seen) cs)"
      using Cons.prems by simp
    then show ?thesis
    proof
      assume "c = a"
      then show ?thesis using False by simp
    next
      assume "c \<in> set (drop_dups_from (contract_id a # seen) cs)"
      then have "contract_id c \<notin> set (contract_id a # seen)" by (rule Cons.IH)
      then show ?thesis by simp
    qed
  qed
qed

lemma drop_dups_from_distinct: "distinct (map contract_id (drop_dups_from seen cs))"
  by (induction cs arbitrary: seen) (auto dest: drop_dups_from_fresh)

lemma drop_duplicates_distinct: "distinct (map contract_id (drop_duplicates cs))"
  by (simp add: drop_duplicates_def drop_dups_from_distinct)

lemma expected_rows_of_id: "r \<in> set (expected_rows_of c) \<Longrightarrow> e_contract_id r = contract_id c"
  by (auto simp: expected_rows_of_def split: option.splits)

lemma filter_expected_rows_of_same:
  "filter (\<lambda>r. e_contract_id r = contract_id c) (expected_rows_of c) = expected_rows_of c"
  by (rule filter_True) (simp add: expected_rows_of_id)

lemma filter_expected_rows_of_other:
  "contract_id c' \<noteq> contract_id c \<Longrightarrow>
   filter (\<lambda>r. e_contract_id r = contract_id c) (expected_rows_of c') = []"
  by (auto simp: filter_empty_conv dest: expected_rows_of_id)

lemma schedule_of_member:
  "distinct (map contract_id cs) \<Longrightarrow> c \<in> set cs \<Longrightarrow> schedule_of cs c = expected_rows_of c"
proof (induction cs)
  case Nil
  then show ?case by simp
next
  case (Cons a cs)
  show ?case
  proof (cases "a = c")
    case True
    have "\<forall>c' \<in> set cs. contract_id c' \<noteq> contract_id c"
      using Cons.prems(1) True by (auto simp: image_iff)
    then have "filter (\<lambda>r. e_contract_id r = contract_id c) (concat (map expected_rows_of cs)) = []"
      by (induction cs) (auto simp: filter_expected_rows_of_other)
    then show ?thesis
      using True by (simp add: schedule_of_def expected_rows_def filter_expected_rows_of_same)
  next
    case False
    then have "c \<in> set cs" and "contract_id a \<noteq> contract_id c"
      using Cons.prems by auto
    then show ?thesis
      using Cons.IH Cons.prems(1)
      by (simp add: schedule_of_def expected_rows_def filter_expected_rows_of_other)
  qed
qed

lemma expected_rows_of_months:
  "start_month c = Some s \<Longrightarrow> end_month c = Some e \<Longrightarrow>
   map e_month (expected_rows_of c) = map to_timestamp [s..e]"
  by (simp add: expected_rows_of_def period_range_def comp_def)

lemma expected_rows_of_null:
  "start_month c = None \<or> end_month c = None \<Longrightarrow> expected_rows_of c = []"
  by (auto simp: expected_rows_of_def split: option.splits)

lemma count_distinct:
  "distinct xs \<Longrightarrow> length (filter (\<lambda>q. q = p) xs) = (if p \<in> set xs then 1 else 0)"
  by (induction xs) auto

lemma count_upto: "length (filter (\<lambda>q. q = p) [s..e]) = (if s \<le> p \<and> p \<le> e then 1 else 0)"
  using count_distinct [of "[s..e]" p] by simp


lemma to_timestamp_eq_iff: "to_timestamp m = to_timestamp p \<longleftrightarrow> m = p"
  using inj_to_timestamp by (auto dest: injD)

lemma expected_rows_of_count:
  assumes "start_month c = Some s" and "end_month c = Some e"
  shows "length (filter (\<lambda>r. e_month r = to_timestamp p) (expected_rows_of c)) =
         (if s \<le> p \<and> p \<le> e then 1 else 0)"
proof -
  have "length (filter (\<lambda>r. e_month r = to_timestamp p) (expected_rows_of c)) =
        length (filter (\<lambda>q. q = p) [s..e])"
    using assms
    by (simp add: expected_rows_of_def period_range_def filter_map comp_def to_timestamp_eq_iff)
  then show ?thesis by (simp add: count_upto)
qed

lemma end_month_eq:
  "registration_date c = Some d \<Longrightarrow> contract_tenor_days c = Some t \<Longrightarrow>
   start_month c = Some (to_period d) \<and> end_month c = Some (to_period (add_days d t))"
  by (simp add: start_month_def end_month_def)

lemma add_days_c9: "add_days (2024, 1, 1) 90 = (2024, 3, 31)"
  by code_simp

lemma period_range_c9: "period_range 24288 24290 = [24288, 24289, 24290]"
  by code_simp

lemma days_c9:
  "period_days_in_month 24288 = 31" "period_days_in_month 24289 = 29"
  "period_days_in_month 24290 = 31"
  by code_simp+

lemma ts_c9:
  "to_timestamp 24288 = (2024, 1, 1)" "to_timestamp 24289 = (2024, 2, 1)"
  "to_timestamp 24290 = (2024, 3, 1)"
  by code_simp+

lemma round2_c9: "round2 310 = 310" "round2 290 = 290"
  by code_simp+

text \<open>
  C2. For a contract of the deduplicated table whose start and end month are not null, the
  months of its schedule rows are exactly the calendar months from the registration month
  to the tenor-end month, in order, each month once; the tenor-end month is the month of
  the registration date plus the tenor in days; a contract with a null start or end month
  has no schedule row.
\<close>

theorem schedule_spans_every_month:
  assumes "c \<in> set (drop_duplicates cs)"
  shows "(\<forall>s e. start_month c = Some s \<and> end_month c = Some e \<longrightarrow>
            map e_month (schedule_of (drop_duplicates cs) c) = map to_timestamp (period_range s e) \<and>
            (\<forall>p. length (filter (\<lambda>r. e_month r = to_timestamp p)
                           (schedule_of (drop_duplicates cs) c)) =
                  (if s \<le> p \<and> p \<le> e then 1 else 0))) \<and>
         (\<forall>d t. registration_date c = Some d \<and> contract_tenor_days c = Some t \<longrightarrow>
            start_month c = Some (to_period d) \<and>
            end_month c = Some (to_period (add_days d t))) \<and>
         (start_month c = None \<or> end_month c = None \<longrightarrow>
            schedule_of (drop_duplicates cs) c = [])"
proof -
  have eq: "schedule_of (drop_duplicates cs) c = expected_rows_of c"
    using assms by (simp add: schedule_of_member drop_duplicates_distinct)
  show ?thesis
    unfolding eq
    using expected_rows_of_months [of c] expected_rows_of_count [of c] end_month_eq [of c]
      expected_rows_of_null [of c]
    by (simp add: period_range_def)
qed

theorem schedule_spans_every_month_witness:
  "c9_contract \<in> set (drop_duplicates example_raw_contracts) \<and>
   start_month c9_contract = Some 24288 \<and> end_month c9_contract = Some 24290 \<and>
   map e_month (schedule_of (drop_duplicates example_raw_contracts) c9_contract) =
     map to_timestamp (period_range 24288 24290) \<and>
   length (filter (\<lambda>r. e_month r = to_timestamp 24289)
             (schedule_of (drop_duplicates example_raw_contracts) c9_contract)) = 1 \<and>
   length (filter (\<lambda>r. e_month r = to_timestamp 24291)
             (schedule_of (drop_duplicates example_raw_contracts) c9_contract)) = 0 \<and>
   c9_contract\<lparr>contract_id := 2, registration_date := None\<rparr>
     \<in> set (drop_duplicates example_raw_contracts) \<and>
   start_month (c9_contract\<lparr>contract_id := 2, registration_date := None\<rparr>) = None \<and>
   schedule_of (drop_duplicates example_raw_contracts)
     (c9_contract\<lparr>contract_id := 2, registration_date := None\<rparr>) = []"
proof -
  let ?n = "c9_contract\<lparr>contract_id := 2, registration_date := None\<rparr>"
  have hn: "?n \<in> set (drop_duplicates example_raw_contracts)"
    by (simp add: drop_duplicates_def example_raw_contracts_def c9_contract_def)
  have sn: "start_month ?n = None"
    by (simp add: start_month_def)
  from schedule_spans_every_month [OF hn] sn
  have n: "schedule_of (drop_duplicates example_raw_contracts) ?n = []"
    by blast
  have h: "c9_contract \<in> set (drop_duplicates example_raw_contracts)"
    by (simp add: drop_duplicates_def example_raw_contracts_def)
  have s: "start_month c9_contract = Some 24288"
    by (simp add: start_month_def c9_contract_def)
  have e: "end_month c9_contract = Some 24290"
    by (simp add: end_month_def c9_contract_def add_days_c9)
  from schedule_spans_every_month [OF h] s e
  have "map e_month (schedule_of (drop_duplicates example_raw_contracts) c9_contract) =
          map to_timestamp (period_range 24288 24290) \<and>
        (\<forall>p. length (filter (\<lambda>r. e_month r = to_timestamp p)
                       (schedule_of (drop_duplicates example_raw_contracts) c9_contract)) =
              (if 24288 \<le> p \<and> p \<le> 24290 then 1 else 0))"
    by blast
  then have "map e_month (schedule_of (drop_duplicates example_raw_contracts) c9_contract) =
          map to_timestamp (period_range 24288 24290) \<and>
        length (filter (\<lambda>r. e_month r = to_timestamp 24289)
                       (schedule_of (drop_duplicates example_raw_contracts) c9_contract)) =
              (if (24288::int) \<le> 24289 \<and> (24289::int) \<le> 24290 then 1 else 0) \<and>
        length (filter (\<lambda>r. e_month r = to_timestamp 24291)
                       (schedule_of (drop_duplicates example_raw_contracts) c9_contract)) =
              (if (24288::int) \<le> 24291 \<and> (24291::int) \<le> 24290 then 1 else 0)"
    by blast
  with h s e hn sn n show ?thesis by simp
qed






text \<open>
  C9 (amended). A contract with a daily payment of 10, registered on 2024-01-01 with a tenor
  of 90 days, has March 2024 as its tenor-end month (2024 is a leap year: the 90th day
  after January 1 is March 31), and its schedule is January, February and March 2024 with
  expected payments 310.00, 290.00 and 310.00.
\<close>

theorem tenor_90_from_jan_2024:
  assumes "registration_date c = Some (2024, 1, 1)"
    and "contract_tenor_days c = Some 90"
    and "daily_payment_amount_usd c = 10"
  shows "end_month c = Some (to_period (2024, 3, 1)) \<and>
         map (\<lambda>r. (e_month r, e_expected_payment r)) (expected_rows_of c) =
           [((2024, 1, 1), 310), ((2024, 2, 1), 290), ((2024, 3, 1), 310)]"
proof -
  have s: "start_month c = Some 24288"
    using assms(1) by (simp add: start_month_def)
  have e: "end_month c = Some 24290"
    using assms(1,2) by (simp add: end_month_def add_days_c9)
  show ?thesis
    using assms(3)
    by (simp add: s e expected_rows_of_def period_range_c9 days_c9 ts_c9 round2_c9)
qed

theorem tenor_90_from_jan_2024_witness:
  "registration_date c9_contract = Some (2024, 1, 1) \<and>
   contract_tenor_days c9_contract = Some 90 \<and>
   daily_payment_amount_usd c9_contract = 10 \<and>
   end_month c9_contract = Some (to_period (2024, 3, 1)) \<and>
   map (\<lambda>r. (e_month r, e_expected_payment r)) (expected_rows_of c9_contract) =
     [((2024, 1, 1), 310), ((2024, 2, 1), 290), ((2024, 3, 1), 310)]"
proof -
  have h: "registration_date c9_contract = Some (2024, 1, 1)"
    "contract_tenor_days c9_contract = Some 90"
    "daily_payment_amount_usd c9_contract = 10"
    by (simp_all add: c9_contract_def)
  from tenor_90_from_jan_2024 [OF h] h show ?thesis by simp
qed

text \<open>
  The claim as written (tenor-end month April 2024 and 310.00 for January) fails.
\<close>

theorem tenor_end_april_counterexample:
  "\<not> (end_month c9_contract = Some (to_period (2024, 4, 1)) \<and>
      (\<exists>r \<in> set (expected_rows_of c9_contract).
         e_month r = (2024, 1, 1) \<and> e_expected_payment r = 310))"
proof -
  have "end_month c9_contract = Some 24290"
    by (simp add: end_month_def c9_contract_def add_days_c9)
  then show ?thesis by simp
qed


section \<open>Properties of the consecutive-miss counter\<close>

lemma walk_length: "length (walk_contract c n rs) = length rs"
  by (induction rs arbitrary: n) (auto simp: Let_def)

lemma walk_other:
  "c' \<noteq> c \<Longrightarrow> filter (\<lambda>r. t_contract_id r = c') (walk_contract c n rs) =
                 filter (\<lambda>r. t_contract_id r = c') rs"
  by (induction rs arbitrary: n) (auto simp: Let_def)

lemma walk_same:
  "filter (\<lambda>r. t_contract_id r = c) (walk_contract c n rs) =
   walk_contract c n (filter (\<lambda>r. t_contract_id r = c) rs)"
  by (induction rs arbitrary: n) (auto simp: Let_def)

lemma walk_idem: "walk_contract c n (walk_contract c m rs) = walk_contract c n rs"
  by (induction rs arbitrary: n m) (auto simp: Let_def)

lemma fold_walk_filter:
  "filter (\<lambda>r. t_contract_id r = c) (fold (\<lambda>d t. walk_contract d 0 t) ds rows) =
   (if c \<in> set ds then walk_contract c 0 (filter (\<lambda>r. t_contract_id r = c) rows)
    else filter (\<lambda>r. t_contract_id r = c) rows)"
proof (induction ds arbitrary: rows)
  case Nil
  then show ?case by simp
next
  case (Cons d ds)
  show ?case
  proof (cases "d = c")
    case True
    then show ?thesis by (simp add: Cons.IH walk_same walk_idem)
  next
    case False
    then show ?thesis by (simp add: Cons.IH walk_other)
  qed
qed

lemma set_unique_aux:
  "set (fold (\<lambda>x acc. if x \<in> set acc then acc else acc @ [x]) xs ys) = set xs \<union> set ys"
  by (induction xs arbitrary: ys) auto

lemma set_unique: "set (unique xs) = set xs"
  by (simp add: unique_def set_unique_aux)

lemma walk_absent:
  "c \<notin> t_contract_id ` set rs \<Longrightarrow> walk_contract c n rs = rs"
  by (induction rs arbitrary: n) auto

lemma assign_consec_filter:
  "filter (\<lambda>r. t_contract_id r = c) (assign_consec rows) =
   walk_contract c 0 (filter (\<lambda>r. t_contract_id r = c) rows)"
proof (cases "c \<in> t_contract_id ` set rows")
  case True
  then show ?thesis by (simp add: assign_consec_def fold_walk_filter set_unique)
next
  case False
  then have "filter (\<lambda>r. t_contract_id r = c) rows = []"
    by (auto simp: filter_empty_conv)
  with False show ?thesis by (simp add: assign_consec_def fold_walk_filter set_unique)
qed

lemma walk_counter:
  assumes "\<forall>r \<in> set rs. t_contract_id r = c \<and> missed_payment r = (total_paid r < expected_payment r)"
  shows "map consec_missed (walk_contract c n rs) =
         miss_counter n (map (\<lambda>r. (total_paid r, expected_payment r)) rs)"
  using assms by (induction rs arbitrary: n) (auto simp: Let_def)

lemma walk_fields:
  "map (\<lambda>r. (t_contract_id r, t_company r, t_month r, expected_payment r, total_paid r, missed_payment r))
     (walk_contract c n rs) =
   map (\<lambda>r. (t_contract_id r, t_company r, t_month r, expected_payment r, total_paid r, missed_payment r)) rs"
  by (induction rs arbitrary: n) (auto simp: Let_def)

lemma miss_counter_nonneg: "0 \<le> n \<Longrightarrow> \<forall>k \<in> set (miss_counter n xs). 0 \<le> k"
  by (induction n xs rule: miss_counter.induct) auto

lemma bucket_table: "0 \<le> n \<Longrightarrow> par_bucket n = bucket_of_counter n"
  by (auto simp: par_bucket_def bucket_of_counter_def)


lemma key_le_same_contract:
  "i = j \<Longrightarrow> ((i, m) \<le> (j, n)) = (m \<le> n)" for i j :: nat and m n :: date
  by (simp only: less_eq_prod_simp) auto

lemma insort_key_same_contract:
  "\<forall>r \<in> set (x # ys). t_contract_id r = c \<Longrightarrow>
   insort_key (\<lambda>r. (t_contract_id r, t_month r)) x ys = insort_key t_month x ys"
proof (induction ys)
  case Nil
  then show ?case by simp
next
  case (Cons a ys)
  have same: "t_contract_id x = t_contract_id a"
    using Cons.prems by simp
  have ih: "insort_key (\<lambda>r. (t_contract_id r, t_month r)) x ys = insort_key t_month x ys"
    by (rule Cons.IH) (use Cons.prems in simp)
  show ?case
    by (simp only: insort_key.simps key_le_same_contract [OF same] ih)
qed


lemma sort_key_same_contract:
  "\<forall>r \<in> set xs. t_contract_id r = c \<Longrightarrow>
   sort_key (\<lambda>r. (t_contract_id r, t_month r)) xs = sort_key t_month xs"
proof (induction xs)
  case Nil
  then show ?case by simp
next
  case (Cons x xs)
  have ih: "sort_key (\<lambda>r. (t_contract_id r, t_month r)) xs = sort_key t_month xs"
    by (rule Cons.IH) (use Cons.prems in simp)
  have "\<forall>r \<in> set (x # sort_key t_month xs). t_contract_id r = c"
    using Cons.prems by simp
  then have ins: "insort_key (\<lambda>r. (t_contract_id r, t_month r)) x (sort_key t_month xs) =
             insort_key t_month x (sort_key t_month xs)"
    by (rule insort_key_same_contract)
  show ?case
    by (simp only: sort_key_simps ih ins)
qed

lemma filter_sort_values:
  "filter (\<lambda>r. t_contract_id r = c) (sort_values rows) =
   sort_key t_month (filter (\<lambda>r. t_contract_id r = c) rows)"
proof -
  have "sort_key (\<lambda>r. (t_contract_id r, t_month r)) (filter (\<lambda>r. t_contract_id r = c) rows) =
        sort_key t_month (filter (\<lambda>r. t_contract_id r = c) rows)"
    by (rule sort_key_same_contract [where c = c]) simp
  then show ?thesis by (simp add: sort_values_def filter_sort)
qed

lemma par_rows_filter:
  "filter (\<lambda>r. t_contract_id r = c) (par_rows rows) =
   map add_bucket (walk_contract c 0
     (map add_missed (sort_key t_month (filter (\<lambda>r. t_contract_id r = c) rows))))"
proof -
  have "filter (\<lambda>r. t_contract_id r = c) (par_rows rows) =
        map add_bucket (filter (\<lambda>r. t_contract_id r = c)
          (assign_consec (map add_missed (sort_values rows))))"
    by (simp add: par_rows_def filter_map comp_def add_bucket_def)
  also have "filter (\<lambda>r. t_contract_id r = c) (assign_consec (map add_missed (sort_values rows))) =
        walk_contract c 0 (filter (\<lambda>r. t_contract_id r = c) (map add_missed (sort_values rows)))"
    by (rule assign_consec_filter)
  also have "filter (\<lambda>r. t_contract_id r = c) (map add_missed (sort_values rows)) =
        map add_missed (filter (\<lambda>r. t_contract_id r = c) (sort_values rows))"
    by (simp add: filter_map comp_def add_missed_def)
  finally show ?thesis by (simp add: filter_sort_values)
qed

lemma walk_months:
  "map (\<lambda>r. (t_month r, expected_payment r, total_paid r)) (walk_contract c n rs) =
   map (\<lambda>r. (t_month r, expected_payment r, total_paid r)) rs"
  by (induction rs arbitrary: n) (auto simp: Let_def)


lemma mine_fields:
  "map (\<lambda>r. (t_month r, expected_payment r, total_paid r))
     (filter (\<lambda>r. t_contract_id r = c) (par_rows rows)) =
   map (\<lambda>r. (t_month r, expected_payment r, total_paid r))
     (sort_key t_month (filter (\<lambda>r. t_contract_id r = c) rows))"
proof -
  let ?S = "sort_key t_month (filter (\<lambda>r. t_contract_id r = c) rows)"
  let ?W = "walk_contract c 0 (map add_missed ?S)"
  let ?g = "\<lambda>r. (t_month r, expected_payment r, total_paid r)"
  have "map ?g (map add_bucket ?W) = map ?g ?W"
    by (simp add: comp_def add_bucket_def)
  also have "\<dots> = map ?g (map add_missed ?S)"
    by (rule walk_months)
  also have "\<dots> = map ?g ?S"
    by (simp add: comp_def add_missed_def)
  finally show ?thesis
    by (simp only: par_rows_filter)
qed

text \<open>
  C1. For every contract, its rows of the PAR table are its schedule rows in month order;
  the counter of consecutive misses along them starts from 0, is 0 on a month whose
  total_paid meets or exceeds expected_payment and one more than on the month before
  otherwise; and the bucket of each month is read from the counter: 0 Current, 1 PAR30,
  2 PAR60, 3 PAR90, 4 or more PAR120.
\<close>

theorem consecutive_miss_counter:
  "(let mine = filter (\<lambda>r. t_contract_id r = c) (par_rows rows)
    in map (\<lambda>r. (t_month r, expected_payment r, total_paid r)) mine =
         map (\<lambda>r. (t_month r, expected_payment r, total_paid r))
           (sort_key t_month (filter (\<lambda>r. t_contract_id r = c) rows)) \<and>
       sorted (map t_month mine) \<and>
       map consec_missed mine =
         miss_counter 0 (map (\<lambda>r. (total_paid r, expected_payment r)) mine) \<and>
       map PAR_bucket mine = map bucket_of_counter (map consec_missed mine))"
proof -
  let ?S = "sort_key t_month (filter (\<lambda>r. t_contract_id r = c) rows)"
  let ?W = "walk_contract c 0 (map add_missed ?S)"
  let ?mine = "filter (\<lambda>r. t_contract_id r = c) (par_rows rows)"
  have mine: "?mine = map add_bucket ?W"
    by (rule par_rows_filter)
  have f: "map (\<lambda>r. (t_month r, expected_payment r, total_paid r)) ?mine =
           map (\<lambda>r. (t_month r, expected_payment r, total_paid r)) ?S"
    by (rule mine_fields)
  have "map t_month ?mine = map fst (map (\<lambda>r. (t_month r, expected_payment r, total_paid r)) ?mine)"
    by (simp add: comp_def)
  also have "\<dots> = map t_month ?S"
    by (simp only: f) (simp add: comp_def)
  finally have s: "sorted (map t_month ?mine)"
    by (simp add: sorted_sort_key)
  have pre: "\<forall>r \<in> set (map add_missed ?S).
      t_contract_id r = c \<and> missed_payment r = (total_paid r < expected_payment r)"
    by (auto simp: add_missed_def)
  have "map consec_missed ?W =
        miss_counter 0 (map (\<lambda>r. (total_paid r, expected_payment r)) (map add_missed ?S))"
    using pre by (rule walk_counter)
  also have "map (\<lambda>r. (total_paid r, expected_payment r)) (map add_missed ?S) =
             map (\<lambda>r. (total_paid r, expected_payment r)) ?mine"
  proof -
    have "map (\<lambda>r. (total_paid r, expected_payment r)) ?mine =
          map (\<lambda>(m, e, p). (p, e)) (map (\<lambda>r. (t_month r, expected_payment r, total_paid r)) ?mine)"
      by (simp add: comp_def)
    also have "\<dots> = map (\<lambda>r. (total_paid r, expected_payment r)) ?S"
      by (simp only: f) (simp add: comp_def)
    finally show ?thesis by (simp add: comp_def add_missed_def)
  qed
  finally have k: "map consec_missed ?mine =
      miss_counter 0 (map (\<lambda>r. (total_paid r, expected_payment r)) ?mine)"
    by (simp add: mine comp_def add_bucket_def)
  have "\<forall>n \<in> set (map consec_missed ?mine). 0 \<le> n"
    unfolding k by (rule miss_counter_nonneg) simp
  then have "map par_bucket (map consec_missed ?mine) = map bucket_of_counter (map consec_missed ?mine)"
    by (simp add: bucket_table)
  moreover have "map PAR_bucket ?mine = map par_bucket (map consec_missed ?mine)"
    by (simp add: mine comp_def add_bucket_def)
  ultimately have b: "map PAR_bucket ?mine = map bucket_of_counter (map consec_missed ?mine)"
    by simp
  from f s k b show ?thesis
    by (simp only: Let_def)
qed


theorem consecutive_miss_counter_witness:
  "map consec_missed (filter (\<lambda>r. t_contract_id r = 1) (par_rows example_trend)) =
     miss_counter 0 [(0, 310), (10, 290), (310, 310)] \<and>
   miss_counter 0 [(0, 310), (10, 290), (310, 310)] = [1, 2, 0] \<and>
   map t_month (filter (\<lambda>r. t_contract_id r = 1) (par_rows example_trend)) =
     [(2024, 1, 1), (2024, 2, 1), (2024, 3, 1)] \<and>
   map PAR_bucket (filter (\<lambda>r. t_contract_id r = 1) (par_rows example_trend)) =
     [PAR30, PAR60, Current]"
proof -
  let ?mine = "filter (\<lambda>r. t_contract_id r = 1) (par_rows example_trend)"
  have fields: "map (\<lambda>r. (total_paid r, expected_payment r)) ?mine =
      [(0, 310), (10, 290), (310, 310)]"
    by code_simp
  have months: "map t_month ?mine = [(2024, 1, 1), (2024, 2, 1), (2024, 3, 1)]"
    by code_simp
  have count: "miss_counter 0 [(0, 310), (10, 290), (310, 310)] = [1, 2, 0]"
    by simp
  have buckets: "map bucket_of_counter [1, 2, 0] = [PAR30, PAR60, Current]"
    by (simp add: bucket_of_counter_def)
  from consecutive_miss_counter [of 1 example_trend]
  have k: "map consec_missed ?mine =
        miss_counter 0 (map (\<lambda>r. (total_paid r, expected_payment r)) ?mine)"
    and b: "map PAR_bucket ?mine = map bucket_of_counter (map consec_missed ?mine)"
    by (simp_all only: Let_def)
  from k have k': "map consec_missed ?mine = miss_counter 0 [(0, 310), (10, 290), (310, 310)]"
    by (simp only: fields)
  from b have "map PAR_bucket ?mine = [PAR30, PAR60, Current]"
    by (simp only: k' count buckets)
  with k' count months show ?thesis by (simp only: simp_thms)
qed


section \<open>Ratios with a zero denominator\<close>

lemma par_pct_zero_total: "Total_PAR rows k = 0 \<Longrightarrow> par_pct rows k b = Fin 0"
  by (simp add: par_pct_def round2_def)

lemma collection_rate_zero_expected:
  "sum_list (map expected_payment (filter (\<lambda>r. (t_company r, t_month r) = k) rows)) = 0 \<Longrightarrow>
   collection_rate (summarise rows k) \<noteq> Fin 0"
  by (simp add: summarise_def Let_def fdiv_def)

lemma fpd_rate_denominator:
  "FPD_rate_trend cs ps k = Some row \<Longrightarrow> 0 < contracts row"
  by (auto simp: FPD_rate_trend_def Let_def split: if_splits)

text \<open>
  C3. With a summed expected payment of 0 the collection rate and the repayment rate are
  NaN, not 0: on the portfolio of one financed contract with a daily payment amount of 0
  and no payment, the only row of the collection-rate table has expected_payment 0 and
  collection_rate NaN, and the only row of the repayment table has cum_expected_payment 0
  and repayment_rate NaN; the PAR percentages of the same month, whose Total_PAR is 0, are
  0 through the guard of the PAR step.
\<close>

theorem ratio_zero_denominator:
  "map (\<lambda>s. (s_company s, s_month s, s_expected_payment s, collection_rate s))
     (trend_summary (trend_financed (drop_duplicates zero_contracts) [])) =
     [(''Zero'', (2024, 1, 1), 0, NaN)] \<and>
   map (\<lambda>s. (s_company s, s_month s, cum_expected_payment s, repayment_rate s))
     (repayment_trend (trend_financed (drop_duplicates zero_contracts) [])) =
     [(''Zero'', (2024, 1, 1), 0, NaN)] \<and>
   Total_PAR (par_rows (trend_financed (drop_duplicates zero_contracts) []))
     (''Zero'', (2024, 1, 1)) = 0 \<and>
   map (par_pct (par_rows (trend_financed (drop_duplicates zero_contracts) []))
          (''Zero'', (2024, 1, 1))) par_buckets =
     [Fin 0, Fin 0, Fin 0, Fin 0, Fin 0]"
  by code_simp


section \<open>What reaches the later sections\<close>

lemma walk_base: "map base5 (walk_contract c n rs) = map base5 rs"
  by (induction rs arbitrary: n) (auto simp: Let_def base5_def)

lemma fold_walk_base: "map base5 (fold (\<lambda>c t. walk_contract c 0 t) ds rs) = map base5 rs"
  by (induction ds arbitrary: rs) (simp_all add: walk_base)

lemma par_rows_base: "map base5 (par_rows rows) = map base5 (sort_values rows)"
proof -
  have "map base5 (par_rows rows) = map base5 (assign_consec (map add_missed (sort_values rows)))"
    by (simp add: par_rows_def comp_def base5_def add_bucket_def)
  also have "\<dots> = map base5 (map add_missed (sort_values rows))"
    by (simp only: assign_consec_def fold_walk_base)
  also have "\<dots> = map base5 (sort_values rows)"
    by (simp add: comp_def base5_def add_missed_def)
  finally show ?thesis .
qed

lemma vintage_merge_fields:
  "t_contract_id (vintage_merge cs r) = t_contract_id r"
  "t_month (vintage_merge cs r) = t_month r"
  "expected_payment (vintage_merge cs r) = expected_payment r"
  "total_paid (vintage_merge cs r) = total_paid r"
  "v_company (vintage_merge cs r) = map_option company (contract_of cs (t_contract_id r))"
  "v_registration_date (vintage_merge cs r) =
     Option.bind (contract_of cs (t_contract_id r)) registration_date"
  "months_on_book (vintage_merge cs r) =
     map_option (\<lambda>d. (toordinal (t_month r) - toordinal d) div 30)
       (Option.bind (contract_of cs (t_contract_id r)) registration_date)"
  "tenor_months (vintage_merge cs r) =
     map_option (\<lambda>t. t div 30) (Option.bind (contract_of cs (t_contract_id r)) contract_tenor_days)"
  by (simp_all add: vintage_merge_def Let_def bucket_row.defs par_row.defs trend_row.defs
      vintage_row.defs)

lemma product_merge_fields:
  "t_contract_id (product_merge cs r) = t_contract_id r"
  "t_month (product_merge cs r) = t_month r"
  "expected_payment (product_merge cs r) = expected_payment r"
  "total_paid (product_merge cs r) = total_paid r"
  "v_company (product_merge cs r) = v_company r"
  "v_registration_date (product_merge cs r) = v_registration_date r"
  "r_baseunit_productname (product_merge cs r) =
     map_option baseunit_productname (contract_of cs (t_contract_id r))"
  "r_product_family (product_merge cs r) =
     map_option product_family (contract_of cs (t_contract_id r))"
  by (simp_all add: product_merge_def bucket_row.defs par_row.defs trend_row.defs
      vintage_row.defs product_row.defs)






lemma trend_final_filter:
  "filter P (trend_final cs ps) =
   map (\<lambda>r. product_merge cs (vintage_merge cs r))
     (filter (\<lambda>r. on_book (vintage_merge cs r) \<and> P (product_merge cs (vintage_merge cs r)))
        (par_rows (trend_financed cs ps)))"
  by (simp add: trend_final_def vintage_rows_def filter_map comp_def conj_commute)






section \<open>Cash-flow inflows\<close>








section \<open>First payment default\<close>

lemma contract_of_Some: "contract_of cs i = Some c \<Longrightarrow> c \<in> set cs \<and> contract_id c = i"
  by (auto simp: contract_of_def find_Some_iff)

lemma contract_of_member:
  "distinct (map contract_id cs) \<Longrightarrow> c \<in> set cs \<Longrightarrow> contract_of cs (contract_id c) = Some c"
proof (induction cs)
  case Nil
  then show ?case by simp
next
  case (Cons a cs)
  show ?case
  proof (cases "a = c")
    case True
    then show ?thesis by (simp add: contract_of_def)
  next
    case False
    with Cons.prems have "c \<in> set cs" and "contract_id a \<noteq> contract_id c"
      by (auto simp: image_iff)
    with Cons show ?thesis by (simp add: contract_of_def)
  qed
qed

lemma filter_by_id:
  "distinct (map contract_id cs) \<Longrightarrow>
   filter (\<lambda>c. contract_id c = i \<and> Q c) cs =
   (case contract_of cs i of None \<Rightarrow> [] | Some c \<Rightarrow> if Q c then [c] else [])"
proof (induction cs)
  case Nil
  then show ?case by (simp add: contract_of_def)
next
  case (Cons a cs)
  show ?case
  proof (cases "contract_id a = i")
    case True
    then have "\<forall>c \<in> set cs. contract_id c \<noteq> i"
      using Cons.prems by (auto simp: image_iff)
    then have "filter (\<lambda>c. contract_id c = i \<and> Q c) cs = []"
      by (simp add: filter_empty_conv)
    with True show ?thesis by (simp add: contract_of_def)
  next
    case False
    with Cons show ?thesis by (simp add: contract_of_def)
  qed
qed

lemma distinct_financed:
  "distinct (map contract_id cs) \<Longrightarrow> distinct (map contract_id (financed cs))"
  by (simp add: financed_def distinct_map_filter)

lemma contract_of_financed:
  assumes "distinct (map contract_id cs)"
  shows "contract_of (financed cs) i =
         (case contract_of cs i of None \<Rightarrow> None
          | Some c \<Rightarrow> if contract_type c = ''FINANCED'' then Some c else None)"
  using assms
proof (induction cs)
  case Nil
  then show ?case by (simp add: contract_of_def financed_def)
next
  case (Cons a cs)
  then have ih: "contract_of (financed cs) i =
         (case contract_of cs i of None \<Rightarrow> None
          | Some c \<Rightarrow> if contract_type c = ''FINANCED'' then Some c else None)"
    by simp
  show ?case
  proof (cases "contract_id a = i")
    case True
    then have "\<forall>c \<in> set cs. contract_id c \<noteq> i"
      using Cons.prems by (auto simp: image_iff)
    then have "contract_of cs i = None"
      by (simp add: contract_of_def find_None_iff)
    with True ih show ?thesis
      by (simp add: contract_of_def financed_def)
  next
    case False
    with ih show ?thesis by (simp add: contract_of_def financed_def)
  qed
qed


lemma trend_final_row:
  assumes "r \<in> set (trend_final cs ps)"
  shows "v_company r = map_option company (contract_of cs (t_contract_id r)) \<and>
         v_registration_date r = Option.bind (contract_of cs (t_contract_id r)) registration_date"
proof -
  from assms obtain r0 where "r = product_merge cs (vintage_merge cs r0)"
    by (auto simp: trend_final_def vintage_rows_def)
  then show ?thesis
    by (simp add: product_merge_fields vintage_merge_fields)
qed

lemma pair_in_concat:
  "(x, y) \<in> set (concat (map (\<lambda>x. map (\<lambda>y. (x, y)) (g x)) xs)) \<longleftrightarrow>
   x \<in> set xs \<and> y \<in> set (g x)"
  by (induction xs) auto

lemma fpd_expected_iff:
  assumes "distinct (map contract_id cs)"
  shows "(r, c) \<in> set (fpd_expected cs ps) \<longleftrightarrow>
         r \<in> set (trend_final cs ps) \<and> c \<in> set (financed cs) \<and>
         t_contract_id r = contract_id c \<and>
         get_fpd_month (registration_date c) = Some (t_month r)"
proof -
  have "v_company r = Some (company c)"
    if "r \<in> set (trend_final cs ps)" "c \<in> set (financed cs)" "t_contract_id r = contract_id c"
  proof -
    from that(2) have "c \<in> set cs" by (simp add: financed_def)
    with assms have "contract_of cs (contract_id c) = Some c"
      by (rule contract_of_member)
    with trend_final_row [OF that(1)] that(3) show ?thesis by simp
  qed
  then have v: "r \<in> set (trend_final cs ps) \<and> c \<in> set (financed cs) \<and>
      t_contract_id r = contract_id c \<Longrightarrow> v_company r = Some (company c)"
    by blast
  have "(r, c) \<in> set (fpd_expected cs ps) \<longleftrightarrow>
        r \<in> set (trend_final cs ps) \<and> c \<in> set (financed cs) \<and>
        t_contract_id r = contract_id c \<and> v_company r = Some (company c) \<and>
        get_fpd_month (registration_date c) = Some (t_month r)"
    unfolding fpd_expected_def pair_in_concat by simp
  with v show ?thesis by blast
qed

lemma fpd_expected_registration:
  assumes "distinct (map contract_id cs)" and "(r, c) \<in> set (fpd_expected cs ps)"
  shows "v_registration_date r = registration_date c"
proof -
  from assms have r: "r \<in> set (trend_final cs ps)" and c: "c \<in> set (financed cs)"
    and i: "t_contract_id r = contract_id c"
    by (simp_all add: fpd_expected_iff)
  from c have "c \<in> set cs" by (simp add: financed_def)
  with assms(1) have "contract_of cs (contract_id c) = Some c"
    by (rule contract_of_member)
  with trend_final_row [OF r] i show ?thesis by simp
qed

lemma same_id_same_contract:
  fixes cs :: "contract list"
  assumes "distinct (map contract_id cs)" and "c \<in> set cs" and "c' \<in> set cs"
    and "contract_id c = contract_id c'"
  shows "c = c'"
proof -
  have a: "contract_of cs (contract_id c) = Some c"
    using assms(1,2) by (rule contract_of_member)
  have b: "contract_of cs (contract_id c') = Some c'"
    using assms(1,3) by (rule contract_of_member)
  have "Some c = contract_of cs (contract_id c)"
    using a by (rule sym)
  also have "\<dots> = contract_of cs (contract_id c')"
    by (simp only: assms(4))
  also have "\<dots> = Some c'"
    by (rule b)
  finally show ?thesis
    by (simp only: option.inject)
qed


lemma expected_rows_of_keys:
  "distinct (map (\<lambda>e. (e_contract_id e, e_month e)) (expected_rows_of c))"
proof (cases "start_month c")
  case None
  then show ?thesis by (simp add: expected_rows_of_def)
next
  case (Some s)
  show ?thesis
  proof (cases "end_month c")
    case None
    then show ?thesis by (simp add: expected_rows_of_def split: option.splits)
  next
    case (Some e)
    have "map (\<lambda>e. (e_contract_id e, e_month e)) (expected_rows_of c) =
          map (\<lambda>m. (contract_id c, to_timestamp m)) [s..e]"
      using \<open>start_month c = Some s\<close> Some
      by (simp add: expected_rows_of_def period_range_def comp_def)
    moreover have "inj_on (\<lambda>m. (contract_id c, to_timestamp m)) (set [s..e])"
      by (rule inj_onI) (simp add: to_timestamp_eq_iff)
    ultimately show ?thesis
      by (simp add: distinct_map)
  qed
qed

lemma expected_rows_keys:
  "distinct (map contract_id cs) \<Longrightarrow>
   distinct (map (\<lambda>e. (e_contract_id e, e_month e)) (expected_rows cs))"
proof (induction cs)
  case Nil
  then show ?case by (simp add: expected_rows_def)
next
  case (Cons a cs)
  have ih: "distinct (map (\<lambda>e. (e_contract_id e, e_month e)) (expected_rows cs))"
    using Cons by simp
  have fresh: "contract_id a \<notin> contract_id ` set cs"
    using Cons.prems by simp
  have disj: "e_contract_id x \<noteq> e_contract_id y"
    if "x \<in> set (expected_rows_of a)" "y \<in> set (expected_rows cs)" for x y
  proof -
    from that(2) obtain c where "c \<in> set cs" "y \<in> set (expected_rows_of c)"
      by (auto simp: expected_rows_def)
    then have "e_contract_id y \<in> contract_id ` set cs"
      by (simp add: expected_rows_of_id)
    moreover have "e_contract_id x = contract_id a"
      using that(1) by (rule expected_rows_of_id)
    ultimately show ?thesis using fresh by metis
  qed
  have "expected_rows (a # cs) = expected_rows_of a @ expected_rows cs"
    by (simp add: expected_rows_def)
  then show ?case
    using ih expected_rows_of_keys [of a] disj by (auto simp: distinct_map inj_on_def)
qed


lemma trend_df_keys:
  "map (\<lambda>r. (t_contract_id r, t_month r)) (trend_df cs ps) =
   map (\<lambda>e. (e_contract_id e, e_month e)) (expected_rows cs)"
  by (simp add: trend_df_def merge_actual_def comp_def)

lemma par_rows_keys:
  "map (\<lambda>r. (t_contract_id r, t_month r)) (par_rows rows) =
   map (\<lambda>r. (t_contract_id r, t_month r)) (sort_values rows)"
proof -
  have "map (\<lambda>r. (t_contract_id r, t_month r)) (par_rows rows) =
        map (\<lambda>b. (fst b, fst (snd (snd b)))) (map base5 (par_rows rows))"
    by (simp add: comp_def base5_def)
  also have "\<dots> = map (\<lambda>b. (fst b, fst (snd (snd b)))) (map base5 (sort_values rows))"
    by (simp only: par_rows_base)
  also have "\<dots> = map (\<lambda>r. (t_contract_id r, t_month r)) (sort_values rows)"
    by (simp add: comp_def base5_def)
  finally show ?thesis .
qed

lemma trend_final_unfiltered:
  "trend_final cs ps =
   map (\<lambda>r. product_merge cs (vintage_merge cs r))
     (filter (\<lambda>r. on_book (vintage_merge cs r)) (par_rows (trend_financed cs ps)))"
  using trend_final_filter [of "\<lambda>_. True" cs ps] by simp

lemma trend_final_keys:
  assumes "distinct (map contract_id cs)"
  shows "distinct (map (\<lambda>r. (t_contract_id r, t_month r)) (trend_final cs ps))"
proof -
  have "distinct (map (\<lambda>r. (t_contract_id r, t_month r)) (trend_df cs ps))"
    unfolding trend_df_keys using assms by (rule expected_rows_keys)
  then have "distinct (map (\<lambda>r. (t_contract_id r, t_month r)) (trend_financed cs ps))"
    unfolding trend_financed_def by (rule distinct_map_filter)
  then have "distinct (map (\<lambda>r. (t_contract_id r, t_month r)) (sort_values (trend_financed cs ps)))"
    by (simp add: sort_values_def distinct_map)
  then have "distinct (map (\<lambda>r. (t_contract_id r, t_month r)) (par_rows (trend_financed cs ps)))"
    by (simp only: par_rows_keys)
  then have "distinct (map (\<lambda>r. (t_contract_id r, t_month r))
      (filter (\<lambda>r. on_book (vintage_merge cs r)) (par_rows (trend_financed cs ps))))"
    by (rule distinct_map_filter)
  moreover have "map (\<lambda>r. (t_contract_id r, t_month r)) (trend_final cs ps) =
      map (\<lambda>r. (t_contract_id r, t_month r))
        (filter (\<lambda>r. on_book (vintage_merge cs r)) (par_rows (trend_financed cs ps)))"
    unfolding trend_final_unfiltered
    by (simp add: comp_def product_merge_fields vintage_merge_fields)
  ultimately show ?thesis by (simp only:)
qed

lemma count_distinct_map:
  "distinct (map f xs) \<Longrightarrow>
   length (filter (\<lambda>x. f x = y) xs) = (if y \<in> f ` set xs then 1 else 0)"
  by (induction xs) (auto simp: image_iff)

lemma has_fpd_row_count:
  assumes "distinct (map contract_id cs)"
  shows "length (filter (\<lambda>r. t_contract_id r = contract_id c \<and>
                              get_fpd_month (registration_date c) = Some (t_month r))
                   (trend_final cs ps)) =
         (if has_fpd_row cs ps c then 1 else 0)"
proof (cases "get_fpd_month (registration_date c)")
  case None
  then show ?thesis by (simp add: has_fpd_row_def)
next
  case (Some m)
  have "filter (\<lambda>r. t_contract_id r = contract_id c \<and> Some m = Some (t_month r)) (trend_final cs ps) =
        filter (\<lambda>r. (t_contract_id r, t_month r) = (contract_id c, m)) (trend_final cs ps)"
    by (rule filter_cong) auto
  moreover have "has_fpd_row cs ps c \<longleftrightarrow>
      (contract_id c, m) \<in> (\<lambda>r. (t_contract_id r, t_month r)) ` set (trend_final cs ps)"
    unfolding has_fpd_row_def Some image_iff
    by (simp only: option.inject prod.inject eq_commute [of "contract_id c"])
  ultimately show ?thesis
    using count_distinct_map [OF trend_final_keys [OF assms, of ps], of "(contract_id c, m)"]
    by (simp only: Some)
qed


lemma fpd_matches:
  assumes "distinct (map contract_id cs)" and "r \<in> set (trend_final cs ps)"
  shows "filter (\<lambda>c. t_contract_id r = contract_id c \<and> v_company r = Some (company c) \<and>
                      get_fpd_month (registration_date c) = Some (t_month r)) (financed cs) =
         (case contract_of (financed cs) (t_contract_id r) of
            None \<Rightarrow> []
          | Some c \<Rightarrow> if get_fpd_month (registration_date c) = Some (t_month r) then [c] else [])"
proof -
  let ?Q = "\<lambda>c. v_company r = Some (company c) \<and>
                get_fpd_month (registration_date c) = Some (t_month r)"
  have "filter (\<lambda>c. t_contract_id r = contract_id c \<and> ?Q c) (financed cs) =
        filter (\<lambda>c. contract_id c = t_contract_id r \<and> ?Q c) (financed cs)"
    by (rule filter_cong) auto
  also have "\<dots> = (case contract_of (financed cs) (t_contract_id r) of
            None \<Rightarrow> [] | Some c \<Rightarrow> if ?Q c then [c] else [])"
    by (rule filter_by_id) (rule distinct_financed [OF assms(1)])
  also have "\<dots> = (case contract_of (financed cs) (t_contract_id r) of
            None \<Rightarrow> []
          | Some c \<Rightarrow> if get_fpd_month (registration_date c) = Some (t_month r) then [c] else [])"
  proof (cases "contract_of (financed cs) (t_contract_id r)")
    case None
    then show ?thesis by simp
  next
    case (Some c)
    then have "contract_of cs (t_contract_id r) = Some c"
      by (simp add: contract_of_financed [OF assms(1)] split: option.splits if_splits)
    with trend_final_row [OF assms(2)] have "v_company r = Some (company c)"
      by simp
    with Some show ?thesis by simp
  qed
  finally show ?thesis .
qed

lemma fpd_expected_eq:
  assumes "distinct (map contract_id cs)"
  shows "fpd_expected cs ps =
         concat (map (\<lambda>r. case contract_of (financed cs) (t_contract_id r) of
                             None \<Rightarrow> []
                           | Some c \<Rightarrow>
                               if get_fpd_month (registration_date c) = Some (t_month r)
                               then [(r, c)] else [])
                   (trend_final cs ps))"
proof -
  have "map (\<lambda>r. map (\<lambda>c. (r, c))
               (filter (\<lambda>c. t_contract_id r = contract_id c \<and> v_company r = Some (company c) \<and>
                             get_fpd_month (registration_date c) = Some (t_month r))
                  (financed cs))) (trend_final cs ps) =
        map (\<lambda>r. case contract_of (financed cs) (t_contract_id r) of
                    None \<Rightarrow> []
                  | Some c \<Rightarrow>
                      if get_fpd_month (registration_date c) = Some (t_month r)
                      then [(r, c)] else []) (trend_final cs ps)"
  proof (rule map_cong [OF refl])
    fix r assume "r \<in> set (trend_final cs ps)"
    then show "map (\<lambda>c. (r, c))
               (filter (\<lambda>c. t_contract_id r = contract_id c \<and> v_company r = Some (company c) \<and>
                             get_fpd_month (registration_date c) = Some (t_month r))
                  (financed cs)) =
          (case contract_of (financed cs) (t_contract_id r) of
                    None \<Rightarrow> []
                  | Some c \<Rightarrow>
                      if get_fpd_month (registration_date c) = Some (t_month r)
                      then [(r, c)] else [])"
      by (simp only: fpd_matches [OF assms]) (simp split: option.splits)
  qed
  then show ?thesis by (simp only: fpd_expected_def)
qed

lemma fpd_pairs_of_contract:
  assumes "contract_of fs i = Some c"
  shows "filter (\<lambda>(r, c'). t_contract_id r = i)
           (concat (map (\<lambda>r. case contract_of fs (t_contract_id r) of
                             None \<Rightarrow> []
                           | Some c \<Rightarrow>
                               if get_fpd_month (registration_date c) = Some (t_month r)
                               then [(r, c)] else []) rows)) =
         map (\<lambda>r. (r, c))
           (filter (\<lambda>r. t_contract_id r = i \<and>
                         get_fpd_month (registration_date c) = Some (t_month r)) rows)"
  using assms by (induction rows) (auto split: option.splits)


lemma contract_of_financed_member:
  assumes "distinct (map contract_id cs)" and "c \<in> set (financed cs)"
  shows "contract_of (financed cs) (contract_id c) = Some c"
  using distinct_financed [OF assms(1)] assms(2) by (rule contract_of_member)

lemma fpd_rows_of_contract:
  assumes "distinct (map contract_id cs)" and "c \<in> set (financed cs)"
  shows "filter (\<lambda>row. f_contract_id row = contract_id c) (fpd_final cs ps) =
         map (\<lambda>r. fpd_row_of cs ps r c)
           (filter (\<lambda>r. t_contract_id r = contract_id c \<and>
                         get_fpd_month (registration_date c) = Some (t_month r))
              (trend_final cs ps))"
proof -
  have "filter (\<lambda>row. f_contract_id row = contract_id c) (fpd_final cs ps) =
        map (\<lambda>(r, c). fpd_row_of cs ps r c)
          (filter (\<lambda>(r, c'). t_contract_id r = contract_id c) (fpd_expected cs ps))"
    unfolding fpd_final_def filter_map
    by (rule arg_cong [where f = "map _"], rule filter_cong)
      (auto simp: fpd_row_of_def)
  also have "filter (\<lambda>(r, c'). t_contract_id r = contract_id c) (fpd_expected cs ps) =
        map (\<lambda>r. (r, c))
          (filter (\<lambda>r. t_contract_id r = contract_id c \<and>
                        get_fpd_month (registration_date c) = Some (t_month r))
             (trend_final cs ps))"
    unfolding fpd_expected_eq [OF assms(1)]
    by (rule fpd_pairs_of_contract) (rule contract_of_financed_member [OF assms])
  finally show ?thesis by (simp add: comp_def)
qed

lemma fpd_final_count:
  assumes "distinct (map contract_id cs)" and "c \<in> set (financed cs)"
  shows "length (filter (\<lambda>row. f_contract_id row = contract_id c) (fpd_final cs ps)) =
         (if has_fpd_row cs ps c then 1 else 0)"
  by (simp only: fpd_rows_of_contract [OF assms] length_map has_fpd_row_count [OF assms(1)])

lemma payment_matches:
  assumes "distinct (map contract_id cs)"
  shows "filter (\<lambda>c. p_contract_id p = contract_id c \<and> payment_company cs p = Some (company c))
           (financed cs) =
         (case contract_of (financed cs) (p_contract_id p) of None \<Rightarrow> [] | Some c \<Rightarrow> [c])"
proof -
  let ?Q = "\<lambda>c. payment_company cs p = Some (company c)"
  have "filter (\<lambda>c. p_contract_id p = contract_id c \<and> ?Q c) (financed cs) =
        filter (\<lambda>c. contract_id c = p_contract_id p \<and> ?Q c) (financed cs)"
    by (rule filter_cong) auto
  also have "\<dots> = (case contract_of (financed cs) (p_contract_id p) of
            None \<Rightarrow> [] | Some c \<Rightarrow> if ?Q c then [c] else [])"
    by (rule filter_by_id) (rule distinct_financed [OF assms])
  also have "\<dots> = (case contract_of (financed cs) (p_contract_id p) of
            None \<Rightarrow> [] | Some c \<Rightarrow> [c])"
  proof (cases "contract_of (financed cs) (p_contract_id p)")
    case None
    then show ?thesis by simp
  next
    case (Some c)
    then have "contract_of cs (p_contract_id p) = Some c"
      by (simp add: contract_of_financed [OF assms] split: option.splits if_splits)
    then have "payment_company cs p = Some (company c)"
      by (simp add: payment_company_def)
    with Some show ?thesis by simp
  qed
  finally show ?thesis .
qed

lemma fpd_payments_of_contract:
  assumes "distinct (map contract_id cs)" and "c \<in> set (financed cs)"
  shows "map fst (filter (\<lambda>(p, c'). p_contract_id p = contract_id c) (fpd_payments cs ps)) =
         filter (\<lambda>p. p_contract_id p = contract_id c \<and>
                      (case payment_month p of
                         None \<Rightarrow> False
                       | Some m \<Rightarrow> get_fpd_month (registration_date c) = Some m)) ps"
proof -
  have c: "contract_of (financed cs) (contract_id c) = Some c"
    by (rule contract_of_financed_member [OF assms])
  show ?thesis
    unfolding fpd_payments_def
  proof (induction ps)
    case Nil
    then show ?case by simp
  next
    case (Cons p ps)
    show ?case
    proof (cases "p_contract_id p = contract_id c")
      case True
      have "filter (\<lambda>c. p_contract_id p = contract_id c \<and>
                          payment_company cs p = Some (company c)) (financed cs) =
            (case contract_of (financed cs) (p_contract_id p) of None \<Rightarrow> [] | Some c \<Rightarrow> [c])"
        by (rule payment_matches [OF assms(1)])
      also have "\<dots> = [c]"
        using c True by simp
      finally have "filter (\<lambda>c. p_contract_id p = contract_id c \<and>
                          payment_company cs p = Some (company c)) (financed cs) = [c]" .
      with True Cons show ?thesis
        by (simp split: option.splits)
    next
      case False
      have "filter (\<lambda>(p', c'). p_contract_id p' = contract_id c)
              (filter (\<lambda>(p, c). case payment_month p of None \<Rightarrow> False
                                 | Some m \<Rightarrow> get_fpd_month (registration_date c) = Some m)
                 (map (\<lambda>c. (p, c))
                    (filter (\<lambda>c. p_contract_id p = contract_id c \<and>
                                  payment_company cs p = Some (company c)) (financed cs)))) = []"
        using False by (auto simp: filter_empty_conv)
      with False Cons show ?thesis by simp
    qed
  qed
qed

lemma fpd_paid_sum:
  assumes "distinct (map contract_id cs)" and "c \<in> set (financed cs)"
  shows "fillna0 (fpd_paid cs ps (contract_id c)) = fpd_sum ps c"
proof -
  let ?g = "filter (\<lambda>(p, c'). p_contract_id p = contract_id c) (fpd_payments cs ps)"
  have "fillna0 (fpd_paid cs ps (contract_id c)) =
        sum_list (map (\<lambda>(p, c). fillna0 (p_total_paid p)) ?g)"
    by (simp add: fpd_paid_def fillna0_def Let_def)
  also have "map (\<lambda>(p, c). fillna0 (p_total_paid p)) ?g =
             map (\<lambda>p. fillna0 (p_total_paid p)) (map fst ?g)"
    by (simp add: comp_def case_prod_unfold)
  finally show ?thesis
    by (simp only: fpd_payments_of_contract [OF assms] fpd_sum_def)
qed


lemma financed_subset: "c \<in> set (financed cs) \<Longrightarrow> c \<in> set cs"
  by (simp add: financed_def)

lemma fpd_final_row:
  assumes "distinct (map contract_id cs)" and "row \<in> set (fpd_final cs ps)"
  obtains r c where "r \<in> set (trend_final cs ps)" and "c \<in> set (financed cs)"
    and "t_contract_id r = contract_id c"
    and "get_fpd_month (registration_date c) = Some (t_month r)"
    and "v_registration_date r = registration_date c"
    and "row = fpd_row_of cs ps r c"
proof -
  from assms(2) obtain r c where rc: "(r, c) \<in> set (fpd_expected cs ps)"
    and row: "row = fpd_row_of cs ps r c"
    by (auto simp: fpd_final_def)
  from rc have "r \<in> set (trend_final cs ps)" "c \<in> set (financed cs)"
    "t_contract_id r = contract_id c"
    "get_fpd_month (registration_date c) = Some (t_month r)"
    by (simp_all add: fpd_expected_iff [OF assms(1)])
  moreover have "v_registration_date r = registration_date c"
    using assms(1) rc by (rule fpd_expected_registration)
  ultimately show ?thesis using row by (rule that)
qed

lemma fpd_final_row_of_contract:
  assumes "distinct (map contract_id cs)" and "row \<in> set (fpd_final cs ps)"
    and "c \<in> set (financed cs)" and "f_contract_id row = contract_id c"
  shows "has_fpd_row cs ps c \<and>
         (f_company row, reg_month row, fpd_month row) = fpd_key c \<and>
         FPD_flag row = (fpd_sum ps c < f_expected_payment row) \<and>
         FPD_zero_flag row = (fpd_sum ps c = 0) \<and>
         (\<exists>r \<in> set (trend_final cs ps). t_contract_id r = contract_id c \<and>
            get_fpd_month (registration_date c) = Some (t_month r) \<and>
            f_expected_payment row = expected_payment r)"
proof -
  from assms(1,2) obtain r c' where r: "r \<in> set (trend_final cs ps)"
    and c': "c' \<in> set (financed cs)"
    and i: "t_contract_id r = contract_id c'"
    and m: "get_fpd_month (registration_date c') = Some (t_month r)"
    and reg: "v_registration_date r = registration_date c'"
    and row: "row = fpd_row_of cs ps r c'"
    by (rule fpd_final_row)
  have "contract_id c' = contract_id c"
    using assms(4) i by (simp add: row fpd_row_of_def)
  with assms(1) c' assms(3) have same: "c' = c"
    by (intro same_id_same_contract [of cs]) (simp_all add: financed_subset)
  have paid: "fillna0 (fpd_paid cs ps (t_contract_id r)) = fpd_sum ps c"
    using fpd_paid_sum [OF assms(1,3)] i same by simp
  have "has_fpd_row cs ps c"
    unfolding has_fpd_row_def using r i m same by blast
  moreover have "(f_company row, reg_month row, fpd_month row) = fpd_key c"
    using reg same by (simp add: row fpd_row_of_def fpd_key_def)
  moreover have "FPD_flag row = (fpd_sum ps c < f_expected_payment row)"
    "FPD_zero_flag row = (fpd_sum ps c = 0)"
    using paid by (simp_all add: row fpd_row_of_def)
  moreover have "\<exists>r \<in> set (trend_final cs ps). t_contract_id r = contract_id c \<and>
            get_fpd_month (registration_date c) = Some (t_month r) \<and>
            f_expected_payment row = expected_payment r"
    using r i m same by (intro bexI [of _ r]) (simp_all add: row fpd_row_of_def)
  ultimately show ?thesis by blast
qed

lemma fpd_final_has_row:
  assumes "distinct (map contract_id cs)" and "c \<in> set (financed cs)"
  shows "(\<exists>row \<in> set (fpd_final cs ps). f_contract_id row = contract_id c) = has_fpd_row cs ps c"
proof -
  have "(\<exists>row \<in> set (fpd_final cs ps). f_contract_id row = contract_id c) \<longleftrightarrow>
        filter (\<lambda>row. f_contract_id row = contract_id c) (fpd_final cs ps) \<noteq> []"
    by (simp add: filter_empty_conv)
  also have "\<dots> \<longleftrightarrow>
        length (filter (\<lambda>row. f_contract_id row = contract_id c) (fpd_final cs ps)) \<noteq> 0"
    by simp
  also have "\<dots> \<longleftrightarrow> has_fpd_row cs ps c"
    by (simp only: fpd_final_count [OF assms]) simp
  finally show ?thesis .
qed

lemma distinct_by_count:
  "(\<And>x. x \<in> f ` set ys \<Longrightarrow> length (filter (\<lambda>y. f y = x) ys) \<le> 1) \<Longrightarrow> distinct (map f ys)"
proof (induction ys)
  case Nil
  then show ?case by simp
next
  case (Cons a ys)
  have "f a \<notin> f ` set ys"
  proof
    assume "f a \<in> f ` set ys"
    then have "filter (\<lambda>y. f y = f a) ys \<noteq> []"
      by (auto simp: filter_empty_conv)
    then have "0 < length (filter (\<lambda>y. f y = f a) ys)" by simp
    moreover have "length (filter (\<lambda>y. f y = f a) (a # ys)) \<le> 1"
      by (rule Cons.prems) simp
    ultimately show False by simp
  qed
  moreover have "distinct (map f ys)"
  proof (rule Cons.IH)
    fix x assume x: "x \<in> f ` set ys"
    then have "length (filter (\<lambda>y. f y = x) (a # ys)) \<le> 1"
      by (intro Cons.prems) simp
    then show "length (filter (\<lambda>y. f y = x) ys) \<le> 1"
      by (simp split: if_splits)
  qed
  ultimately show ?case by simp
qed

lemma fpd_final_distinct:
  assumes "distinct (map contract_id cs)"
  shows "distinct (map f_contract_id (fpd_final cs ps))"
proof (rule distinct_by_count)
  fix x assume "x \<in> f_contract_id ` set (fpd_final cs ps)"
  then obtain row where row: "row \<in> set (fpd_final cs ps)" and x: "x = f_contract_id row"
    by auto
  from assms row obtain r c where "c \<in> set (financed cs)" "t_contract_id r = contract_id c"
    "row = fpd_row_of cs ps r c"
    by (rule fpd_final_row)
  then have c: "c \<in> set (financed cs)" and "x = contract_id c"
    using x by (simp_all add: fpd_row_of_def)
  then show "length (filter (\<lambda>y. f_contract_id y = x) (fpd_final cs ps)) \<le> 1"
    using fpd_final_count [OF assms c, of ps] by simp
qed


lemma length_filter_card:
  assumes "distinct (map f xs)"
  shows "length (filter P xs) = card (f ` {x \<in> set xs. P x})"
proof -
  have "distinct (map f (filter P xs))"
    using assms by (rule distinct_map_filter)
  then have "card (set (map f (filter P xs))) = length (map f (filter P xs))"
    by (rule distinct_card)
  moreover have "set (map f (filter P xs)) = f ` {x \<in> set xs. P x}"
    by auto
  ultimately show ?thesis by simp
qed

lemma fpd_count_contracts:
  assumes "distinct (map contract_id cs)"
  shows "length (filter P (fpd_final cs ps)) =
         length (filter (\<lambda>c. \<exists>row \<in> set (fpd_final cs ps).
                                f_contract_id row = contract_id c \<and> P row) (financed cs))"
proof -
  let ?Q = "\<lambda>c. \<exists>row \<in> set (fpd_final cs ps). f_contract_id row = contract_id c \<and> P row"
  have "f_contract_id ` {row \<in> set (fpd_final cs ps). P row} =
        contract_id ` {c \<in> set (financed cs). ?Q c}"
  proof (rule set_eqI, rule iffI)
    fix x assume "x \<in> f_contract_id ` {row \<in> set (fpd_final cs ps). P row}"
    then obtain row where row: "row \<in> set (fpd_final cs ps)" "P row" "x = f_contract_id row"
      by auto
    from assms row(1) obtain r c where c: "c \<in> set (financed cs)"
      and "t_contract_id r = contract_id c" "row = fpd_row_of cs ps r c"
      by (rule fpd_final_row)
    then have "f_contract_id row = contract_id c"
      by (simp add: fpd_row_of_def)
    with row c have "c \<in> {c \<in> set (financed cs). ?Q c}" and "x = contract_id c"
      by auto
    then show "x \<in> contract_id ` {c \<in> set (financed cs). ?Q c}"
      by (rule image_eqI [rotated])
  next
    fix x assume "x \<in> contract_id ` {c \<in> set (financed cs). ?Q c}"
    then obtain c where "c \<in> set (financed cs)" "?Q c" "x = contract_id c"
      by auto
    then obtain row where "row \<in> set (fpd_final cs ps)" "P row" "x = f_contract_id row"
      by auto
    then show "x \<in> f_contract_id ` {row \<in> set (fpd_final cs ps). P row}"
      by auto
  qed
  then show ?thesis
    using length_filter_card [OF fpd_final_distinct [OF assms, of ps], of P]
      length_filter_card [OF distinct_financed [OF assms], of ?Q]
    by simp
qed

lemma fpd_key_rows:
  assumes "distinct (map contract_id cs)" and "c \<in> set (financed cs)"
  shows "(\<exists>row \<in> set (fpd_final cs ps). f_contract_id row = contract_id c \<and>
            (f_company row, reg_month row, fpd_month row) = k \<and> G row) \<longleftrightarrow>
         fpd_key c = k \<and>
         (\<exists>row \<in> set (fpd_final cs ps). f_contract_id row = contract_id c \<and> G row)"
proof -
  have key: "(f_company row, reg_month row, fpd_month row) = fpd_key c"
    if "row \<in> set (fpd_final cs ps)" "f_contract_id row = contract_id c" for row
    using fpd_final_row_of_contract [OF assms(1) that(1) assms(2) that(2)] by simp
  show ?thesis
  proof
    assume "\<exists>row \<in> set (fpd_final cs ps). f_contract_id row = contract_id c \<and>
            (f_company row, reg_month row, fpd_month row) = k \<and> G row"
    then obtain row where row: "row \<in> set (fpd_final cs ps)"
      "f_contract_id row = contract_id c"
      "(f_company row, reg_month row, fpd_month row) = k" "G row"
      by blast
    from key [OF row(1,2)] row(3) have "fpd_key c = k" by simp
    moreover have "\<exists>row \<in> set (fpd_final cs ps). f_contract_id row = contract_id c \<and> G row"
      using row(1,2,4) by blast
    ultimately show "fpd_key c = k \<and>
         (\<exists>row \<in> set (fpd_final cs ps). f_contract_id row = contract_id c \<and> G row)"
      by (rule conjI)
  next
    assume r: "fpd_key c = k \<and>
         (\<exists>row \<in> set (fpd_final cs ps). f_contract_id row = contract_id c \<and> G row)"
    then obtain row where row: "row \<in> set (fpd_final cs ps)"
      "f_contract_id row = contract_id c" "G row"
      by blast
    from key [OF row(1,2)] r have "(f_company row, reg_month row, fpd_month row) = k"
      by simp
    with row show "\<exists>row \<in> set (fpd_final cs ps). f_contract_id row = contract_id c \<and>
            (f_company row, reg_month row, fpd_month row) = k \<and> G row"
      by blast
  qed
qed


lemma fpd_group_counts:
  assumes "distinct (map contract_id cs)"
  shows "length (fpd_group cs ps k) =
           length (filter (\<lambda>c. has_fpd_row cs ps c \<and>
                      fpd_key c = (fst k, Some (fst (snd k)), Some (snd (snd k)))) (financed cs))"
    and "length (filter FPD_flag (fpd_group cs ps k)) =
           length (filter (\<lambda>c. has_fpd_row cs ps c \<and>
                      fpd_key c = (fst k, Some (fst (snd k)), Some (snd (snd k))) \<and>
                      flagged_FPD cs ps c) (financed cs))"
    and "length (filter FPD_zero_flag (fpd_group cs ps k)) =
           length (filter (\<lambda>c. has_fpd_row cs ps c \<and>
                      fpd_key c = (fst k, Some (fst (snd k)), Some (snd (snd k))) \<and>
                      flagged_FPD_zero cs ps c) (financed cs))"
proof -
  let ?K = "(fst k, Some (fst (snd k)), Some (snd (snd k)))"
  let ?key = "\<lambda>row. (f_company row, reg_month row, fpd_month row) = ?K"
  have any: "(\<exists>row \<in> set (fpd_final cs ps). f_contract_id row = contract_id c \<and> ?key row \<and> G row) \<longleftrightarrow>
      has_fpd_row cs ps c \<and> fpd_key c = ?K \<and>
      (\<exists>row \<in> set (fpd_final cs ps). f_contract_id row = contract_id c \<and> G row)"
    if "c \<in> set (financed cs)" for c G
  proof -
    have "(\<exists>row \<in> set (fpd_final cs ps). f_contract_id row = contract_id c \<and> G row) \<Longrightarrow>
          has_fpd_row cs ps c"
      using fpd_final_has_row [OF assms that, of ps] by blast
    then show ?thesis
      unfolding fpd_key_rows [OF assms that] by blast
  qed
  have "length (fpd_group cs ps k) =
        length (filter (\<lambda>c. \<exists>row \<in> set (fpd_final cs ps).
                   f_contract_id row = contract_id c \<and> ?key row \<and> True) (financed cs))"
    unfolding fpd_group_def fpd_count_contracts [OF assms] by simp
  also have "\<dots> = length (filter (\<lambda>c. has_fpd_row cs ps c \<and> fpd_key c = ?K \<and>
        (\<exists>row \<in> set (fpd_final cs ps). f_contract_id row = contract_id c \<and> True)) (financed cs))"
    by (rule arg_cong [where f = length], rule filter_cong [OF refl]) (rule any)
  also have "\<dots> = length (filter (\<lambda>c. has_fpd_row cs ps c \<and> fpd_key c = ?K) (financed cs))"
    by (rule arg_cong [where f = length], rule filter_cong [OF refl])
      (use fpd_final_has_row [OF assms] in auto)
  finally show "length (fpd_group cs ps k) =
        length (filter (\<lambda>c. has_fpd_row cs ps c \<and> fpd_key c = ?K) (financed cs))" .
  have "length (filter FPD_flag (fpd_group cs ps k)) =
        length (filter (\<lambda>c. \<exists>row \<in> set (fpd_final cs ps).
                   f_contract_id row = contract_id c \<and> ?key row \<and> FPD_flag row) (financed cs))"
    unfolding fpd_group_def filter_filter fpd_count_contracts [OF assms]
    by (simp add: conj_commute)
  also have "\<dots> = length (filter (\<lambda>c. has_fpd_row cs ps c \<and> fpd_key c = ?K \<and>
        (\<exists>row \<in> set (fpd_final cs ps). f_contract_id row = contract_id c \<and> FPD_flag row))
        (financed cs))"
    by (rule arg_cong [where f = length], rule filter_cong [OF refl]) (rule any)
  finally show "length (filter FPD_flag (fpd_group cs ps k)) =
        length (filter (\<lambda>c. has_fpd_row cs ps c \<and> fpd_key c = ?K \<and> flagged_FPD cs ps c)
          (financed cs))"
    by (simp only: flagged_FPD_def)
  have "length (filter FPD_zero_flag (fpd_group cs ps k)) =
        length (filter (\<lambda>c. \<exists>row \<in> set (fpd_final cs ps).
                   f_contract_id row = contract_id c \<and> ?key row \<and> FPD_zero_flag row) (financed cs))"
    unfolding fpd_group_def filter_filter fpd_count_contracts [OF assms]
    by (simp add: conj_commute)
  also have "\<dots> = length (filter (\<lambda>c. has_fpd_row cs ps c \<and> fpd_key c = ?K \<and>
        (\<exists>row \<in> set (fpd_final cs ps). f_contract_id row = contract_id c \<and> FPD_zero_flag row))
        (financed cs))"
    by (rule arg_cong [where f = length], rule filter_cong [OF refl]) (rule any)
  finally show "length (filter FPD_zero_flag (fpd_group cs ps k)) =
        length (filter (\<lambda>c. has_fpd_row cs ps c \<and> fpd_key c = ?K \<and> flagged_FPD_zero cs ps c)
          (financed cs))"
    by (simp only: flagged_FPD_zero_def)
qed


text \<open>
  C10. A FINANCED contract with no row at its FPD month in the table that section 6.8 reads
  (the schedule after the months-on-book filter) has no row in \<open>fpd_final\<close>, so it counts
  in no numerator and no denominator; and in every row of the FPD rate table the contract
  count is the number of FINANCED contracts of the key that have such a row, the FPD and
  FPD-zero counts the numbers of those that are flagged, and the rates their ratios.
\<close>

theorem fpd_rate_counts_rows_only:
  assumes "c \<in> set (financed (drop_duplicates raw))"
  shows "(\<not> has_fpd_row (drop_duplicates raw) ps c \<longrightarrow>
            contract_id c \<notin> f_contract_id ` set (fpd_final (drop_duplicates raw) ps)) \<and>
         (\<forall>k row. FPD_rate_trend (drop_duplicates raw) ps k = Some row \<longrightarrow>
            contracts row =
              length (filter (\<lambda>c. has_fpd_row (drop_duplicates raw) ps c \<and>
                         fpd_key c = (fst k, Some (fst (snd k)), Some (snd (snd k))))
                        (financed (drop_duplicates raw))) \<and>
            FPD_count row =
              length (filter (\<lambda>c. has_fpd_row (drop_duplicates raw) ps c \<and>
                         fpd_key c = (fst k, Some (fst (snd k)), Some (snd (snd k))) \<and>
                         flagged_FPD (drop_duplicates raw) ps c)
                        (financed (drop_duplicates raw))) \<and>
            FPD_zero_count row =
              length (filter (\<lambda>c. has_fpd_row (drop_duplicates raw) ps c \<and>
                         fpd_key c = (fst k, Some (fst (snd k)), Some (snd (snd k))) \<and>
                         flagged_FPD_zero (drop_duplicates raw) ps c)
                        (financed (drop_duplicates raw))) \<and>
            FPD_rate row =
              fround2 (times100 (fdiv (of_nat (FPD_count row)) (of_nat (contracts row)))) \<and>
            FPD_zero_rate row =
              fround2 (times100 (fdiv (of_nat (FPD_zero_count row)) (of_nat (contracts row)))))"
proof -
  let ?cs = "drop_duplicates raw"
  have d: "distinct (map contract_id ?cs)"
    by (rule drop_duplicates_distinct)
  have "\<not> has_fpd_row ?cs ps c \<longrightarrow> contract_id c \<notin> f_contract_id ` set (fpd_final ?cs ps)"
    using fpd_final_has_row [OF d assms, of ps] by (auto simp: image_iff)
  moreover have "contracts row = length (fpd_group ?cs ps k) \<and>
      FPD_count row = length (filter FPD_flag (fpd_group ?cs ps k)) \<and>
      FPD_zero_count row = length (filter FPD_zero_flag (fpd_group ?cs ps k)) \<and>
      FPD_rate row = fround2 (times100 (fdiv (of_nat (FPD_count row)) (of_nat (contracts row)))) \<and>
      FPD_zero_rate row =
        fround2 (times100 (fdiv (of_nat (FPD_zero_count row)) (of_nat (contracts row))))"
    if "FPD_rate_trend ?cs ps k = Some row" for k row
    using that by (auto simp: FPD_rate_trend_def Let_def split: if_splits)
  ultimately show ?thesis
    by (simp only: fpd_group_counts [OF d]) blast
qed

theorem fpd_rate_counts_rows_only_witness:
  "short_contract \<in> set (financed (drop_duplicates example_contracts)) \<and>
   \<not> has_fpd_row (drop_duplicates example_contracts) example_payments short_contract \<and>
   contract_id short_contract
     \<notin> f_contract_id ` set (fpd_final (drop_duplicates example_contracts) example_payments) \<and>
   FPD_rate_trend (drop_duplicates example_contracts) example_payments
     (''Wakanda'', (2024, 1, 1), (2024, 2, 1)) =
     Some \<lparr>contracts = 1, FPD_count = 1, FPD_rate = Fin 100, FPD_zero_count = 0,
           FPD_zero_rate = Fin 0\<rparr> \<and>
   length (filter (\<lambda>c. has_fpd_row (drop_duplicates example_contracts) example_payments c \<and>
              fpd_key c = (''Wakanda'', Some (2024, 1, 1), Some (2024, 2, 1)))
             (financed (drop_duplicates example_contracts))) = 1 \<and>
   length (financed (drop_duplicates example_contracts)) = 3"
proof -
  let ?cs = "drop_duplicates example_contracts"
  let ?row = "\<lparr>contracts = 1, FPD_count = 1, FPD_rate = Fin 100, FPD_zero_count = 0,
           FPD_zero_rate = Fin 0\<rparr>"
  have h: "short_contract \<in> set (financed ?cs)"
    by code_simp
  have n: "\<not> has_fpd_row ?cs example_payments short_contract"
    by code_simp
  have r: "FPD_rate_trend ?cs example_payments (''Wakanda'', (2024, 1, 1), (2024, 2, 1)) = Some ?row"
    by code_simp
  have l: "length (financed ?cs) = 3"
    by code_simp
  from fpd_rate_counts_rows_only [OF h, of example_payments] n
  have a: "contract_id short_contract \<notin> f_contract_id ` set (fpd_final ?cs example_payments)"
    by blast
  from fpd_rate_counts_rows_only [OF h, of example_payments] r
  have "contracts ?row =
      length (filter (\<lambda>c. has_fpd_row ?cs example_payments c \<and>
                fpd_key c = (fst (''Wakanda'', (2024 :: int, 1 :: int, 1 :: int), (2024 :: int, 2 :: int, 1 :: int)),
                  Some (fst (snd (''Wakanda'', (2024 :: int, 1 :: int, 1 :: int), (2024 :: int, 2 :: int, 1 :: int)))),
                  Some (snd (snd (''Wakanda'', (2024 :: int, 1 :: int, 1 :: int), (2024 :: int, 2 :: int, 1 :: int))))))
               (financed ?cs))"
    by blast
  then have b: "length (filter (\<lambda>c. has_fpd_row ?cs example_payments c \<and>
              fpd_key c = (''Wakanda'', Some (2024, 1, 1), Some (2024, 2, 1)))
             (financed ?cs)) = 1"
    by simp
  from h n a r b l show ?thesis by (simp only: simp_thms)
qed













section \<open>Projection and valuation\<close>

lemma projection_months_sorted: "sorted projection_months \<and> distinct projection_months"
  by code_simp

lemma block_months:
  "map j_month (projection_block cs m) = replicate (length (filter (\<lambda>c. active c m) cs)) m"
  by (induction cs) (simp_all add: projection_block_def)

lemma block_expected:
  "map j_expected_payment (projection_block cs m) =
   map (\<lambda>c. daily_payment_amount_usd c * of_int (days_in_month (fst m) (fst (snd m))))
     (filter (\<lambda>c. active c m) cs)"
  by (induction cs) (simp_all add: projection_block_def)

lemma block_empty: "projection_block cs m = [] \<longleftrightarrow> \<not> (\<exists>c \<in> set cs. active c m)"
  by (induction cs) (simp_all add: projection_block_def)

lemma block_month: "r \<in> set (projection_block cs m) \<Longrightarrow> j_month r = m"
  using block_months [of cs m] by (metis in_set_replicate set_map imageI)

lemma filter_blocks:
  "distinct ms \<Longrightarrow> m \<in> set ms \<Longrightarrow>
   filter (\<lambda>r. j_month r = m) (concat (map (projection_block cs) ms)) = projection_block cs m"
proof (induction ms)
  case Nil
  then show ?case by simp
next
  case (Cons a ms)
  show ?case
  proof (cases "a = m")
    case True
    then have "m \<notin> set ms" using Cons.prems by simp
    then have "filter (\<lambda>r. j_month r = m) (concat (map (projection_block cs) ms)) = []"
      by (auto simp: filter_empty_conv dest: block_month)
    moreover have "filter (\<lambda>r. j_month r = m) (projection_block cs m) = projection_block cs m"
      by (rule filter_True) (simp add: block_month)
    ultimately show ?thesis using True by simp
  next
    case False
    then have "filter (\<lambda>r. j_month r = m) (projection_block cs a) = []"
      by (auto simp: filter_empty_conv dest: block_month)
    with False Cons show ?thesis by simp
  qed
qed

lemma remdups_blocks:
  "distinct ms \<Longrightarrow>
   remdups (map j_month (concat (map (projection_block cs) ms))) =
   filter (\<lambda>m. \<exists>c \<in> set cs. active c m) ms"
proof (induction ms)
  case Nil
  then show ?case by simp
next
  case (Cons a ms)
  let ?rest = "map j_month (concat (map (projection_block cs) ms))"
  have ih: "remdups ?rest = filter (\<lambda>m. \<exists>c \<in> set cs. active c m) ms"
    using Cons by simp
  have notin: "a \<notin> set ?rest"
  proof
    assume "a \<in> set ?rest"
    then obtain r m where "m \<in> set ms" "r \<in> set (projection_block cs m)" "a = j_month r"
      by auto
    then have "a \<in> set ms" by (simp add: block_month)
    with Cons.prems show False by simp
  qed
  show ?case
  proof (cases "\<exists>c \<in> set cs. active c a")
    case True
    then have "filter (\<lambda>c. active c a) cs \<noteq> []"
      by (simp add: filter_empty_conv)
    then obtain n where n: "length (filter (\<lambda>c. active c a) cs) = Suc n"
      by (cases "filter (\<lambda>c. active c a) cs") auto
    have "remdups (replicate (Suc n) a @ ?rest) = a # remdups ?rest"
      using notin by (induction n) simp_all
    with True ih n show ?thesis by (simp add: block_months)
  next
    case False
    then have "projection_block cs a = []" by (simp add: block_empty)
    with False ih show ?thesis by simp
  qed
qed


lemma active_months_subset: "m \<in> set (active_months cs) \<Longrightarrow> m \<in> set projection_months"
  by (simp add: active_months_def)

lemma projection_rows_empty: "projection_rows cs = [] \<longleftrightarrow> active_months cs = []"
  by (simp add: projection_rows_def active_months_def block_empty filter_empty_conv)

lemma projection_group_keys: "group_keys j_month (projection_rows cs) = active_months cs"
proof -
  have "remdups (map j_month (projection_rows cs)) = active_months cs"
    unfolding projection_rows_def active_months_def
    by (rule remdups_blocks) (simp add: projection_months_sorted)
  moreover have "sorted (active_months cs)"
    unfolding active_months_def
    using sorted_filter [of "\<lambda>m. m" projection_months] by (simp add: projection_months_sorted)
  ultimately show ?thesis
    by (simp add: group_keys_def sorted_sort_id)
qed

lemma projection_month_sum:
  assumes "m \<in> set projection_months"
  shows "sum_list (map j_expected_payment (filter (\<lambda>r. j_month r = m) (projection_rows cs))) =
         month_total cs m"
proof -
  have "filter (\<lambda>r. j_month r = m) (projection_rows cs) = projection_block cs m"
    unfolding projection_rows_def using assms
    by (intro filter_blocks) (simp_all add: projection_months_sorted)
  then show ?thesis
    by (simp only: block_expected month_total_def)
qed

lemma monthly_projection_eq:
  "monthly_projection cs =
   (if active_months cs = [] then Inl KeyError
    else Inr (map (\<lambda>m. (m, round2 (month_total cs m))) (active_months cs)))"
proof -
  have "map (\<lambda>m. (m, round2 (sum_list (map j_expected_payment
                     (filter (\<lambda>r. j_month r = m) (projection_rows cs)))))) (active_months cs) =
        map (\<lambda>m. (m, round2 (month_total cs m))) (active_months cs)"
    by (rule map_cong [OF refl]) (simp add: projection_month_sum active_months_subset)
  then show ?thesis
    by (simp add: monthly_projection_def Let_def projection_rows_empty projection_group_keys)
qed

lemma discounted_cashflow_map:
  "discounted_cashflow (map (\<lambda>m. (m, e m)) ms) =
   map (\<lambda>(i, m). of_rat (e m) * discount_factor i) (zip [1..<length ms + 1] ms)"
  by (simp add: discounted_cashflow_def zip_map2 case_prod_unfold comp_def)


lemma length_projection_months: "length projection_months = 12"
  by code_simp

lemma monthly_base_gt_one: "1 < 1 + monthly_discount"
proof -
  have "1 < (1 + discount_rate) powr (1 / 12)"
    by (rule gr_one_powr) (simp_all add: discount_rate_def)
  then show ?thesis by (simp add: monthly_discount_def)
qed

lemma discount_factor_inj: "discount_factor i = discount_factor j \<longleftrightarrow> i = j"
proof -
  have "0 < 1 + monthly_discount" and "1 + monthly_discount \<noteq> 1"
    using monthly_base_gt_one by simp_all
  then show ?thesis
    unfolding discount_factor_def by (simp add: powr_inj)
qed

text \<open>
  What the valuation computes: the factors go, in order, to the months of the window that
  have at least one active contract; when every month of the window has one, this is the
  sum over the twelve months with the i-th month discounted by the i-th factor; with no
  active contract in the whole window the valuation raises.
\<close>

lemma portfolio_value_formula:
  "portfolio_value cs =
     (if active_months cs = [] then Inl KeyError
      else Inr (sum_list (map (\<lambda>(i, m). of_rat (round2 (month_total cs m)) * discount_factor i)
                  (zip [1..<length (active_months cs) + 1] (active_months cs))))) \<and>
   (active_months cs = projection_months \<longrightarrow> portfolio_value cs = Inr (window_value cs)) \<and>
   monthly_discount = (1 + 15 / 100) powr (1 / 12) - 1 \<and>
   (\<forall>i. discount_factor i = (1 + monthly_discount) powr (- real i))"
proof -
  have v: "portfolio_value cs =
     (if active_months cs = [] then Inl KeyError
      else Inr (sum_list (map (\<lambda>(i, m). of_rat (round2 (month_total cs m)) * discount_factor i)
                  (zip [1..<length (active_months cs) + 1] (active_months cs)))))"
    by (simp add: portfolio_value_def monthly_projection_eq discounted_cashflow_map)
  have "portfolio_value cs = Inr (window_value cs)" if "active_months cs = projection_months"
  proof -
    have "projection_months \<noteq> []"
      using length_projection_months by auto
    then show ?thesis
      by (simp add: v that window_value_def length_projection_months)
  qed
  with v show ?thesis
    by (simp add: monthly_discount_def discount_rate_def discount_factor_def)
qed

lemma portfolio_value_full_window:
  "active_months long_contracts = projection_months \<and>
   portfolio_value long_contracts = Inr (window_value long_contracts)"
proof -
  have a: "active_months long_contracts = projection_months"
    by code_simp
  from portfolio_value_formula [of long_contracts]
  have "active_months long_contracts = projection_months \<longrightarrow>
      portfolio_value long_contracts = Inr (window_value long_contracts)"
    by (rule conjunct1 [OF conjunct2])
  then have "portfolio_value long_contracts = Inr (window_value long_contracts)"
    using a by (rule mp)
  with a show ?thesis by (rule conjI)
qed

lemma window_value_september: "window_value september_contracts = 300 * discount_factor 2"
proof -
  have e: "map (\<lambda>m. round2 (month_total september_contracts m)) projection_months =
        [0, 300, 0, 0, 0, 0, 0, 0, 0, 0, 0, 0]"
    by code_simp
  have u: "[1..<13] = [1, 2, 3, 4, 5, 6, 7, 8, 9, 10, 11, 12 :: nat]"
    by code_simp
  have "window_value september_contracts =
        sum_list (map (\<lambda>(i, e). of_rat e * discount_factor i)
          (zip [1..<13] (map (\<lambda>m. round2 (month_total september_contracts m)) projection_months)))"
    by (simp add: window_value_def zip_map2 case_prod_unfold comp_def)
  then show ?thesis
    by (simp only: e u) simp
qed

text \<open>
  C7. On a portfolio whose only contract is active in September 2025 alone, the second
  month of the window, the valuation discounts the September cash flow of 300.00 by the
  first factor: the value is 300 (1 + monthly_rate)^(-1), where the i-th month of the
  window discounted by the i-th factor gives 300 (1 + monthly_rate)^(-2); the two differ.
  The monthly rate is (1 + 0.15)^(1/12) - 1.
\<close>

theorem portfolio_value_skips_empty_month:
  "portfolio_value september_contracts = Inr (300 * discount_factor 1) \<and>
   window_value september_contracts = 300 * discount_factor 2 \<and>
   discount_factor 1 \<noteq> discount_factor 2 \<and>
   portfolio_value september_contracts \<noteq> Inr (window_value september_contracts) \<and>
   monthly_discount = (1 + 15 / 100) powr (1 / 12) - 1 \<and>
   discount_factor 1 = (1 + monthly_discount) powr (- 1) \<and>
   discount_factor 2 = (1 + monthly_discount) powr (- 2)"
proof -
  have s: "active_months september_contracts = [(2025, 9, 1)]"
    by code_simp
  have t: "round2 (month_total september_contracts (2025, 9, 1)) = 300"
    by code_simp
  have v: "portfolio_value september_contracts = Inr (300 * discount_factor 1)"
    by (simp add: portfolio_value_def monthly_projection_eq discounted_cashflow_def s t)
  have n: "discount_factor 1 \<noteq> discount_factor 2"
    by (simp only: discount_factor_inj)
  have d: "portfolio_value september_contracts \<noteq> Inr (window_value september_contracts)"
    using v n by (simp add: window_value_september)
  have m: "monthly_discount = (1 + 15 / 100) powr (1 / 12) - 1"
    by (simp add: monthly_discount_def discount_rate_def)
  have f: "discount_factor 1 = (1 + monthly_discount) powr (- 1)"
    "discount_factor 2 = (1 + monthly_discount) powr (- 2)"
    by (simp_all add: discount_factor_def)
  from v window_value_september n d m f show ?thesis
    by (simp only: simp_thms)
qed



section \<open>Joining company onto a table\<close>

lemma project_columns:
  "set cols \<subseteq> set (columns f) \<Longrightarrow>
   \<exists>n. project cols f = Inr n \<and> columns n = cols"
  by (simp add: project_def)

lemma vintage_join_columns:
  assumes "columns trend = trend_columns"
    and "set [''contract_id'', ''vintage'', ''registration_date'', ''contract_tenor_days'',
              ''company''] \<subseteq> set (columns contracts_df)"
  shows "\<exists>v. vintage_join trend contracts_df = Inr v \<and>
           columns v =
             [''contract_id'', ''company_x'', ''month'', ''expected_payment'', ''total_paid'',
              ''missed_payment'', ''consec_missed'', ''PAR_bucket'', ''vintage'',
              ''registration_date'', ''contract_tenor_days'', ''company_y'']"
proof -
  from project_columns [OF assms(2)] obtain wide
    where w: "project [''contract_id'', ''vintage'', ''registration_date'',
                ''contract_tenor_days'', ''company''] contracts_df = Inr wide"
      and cw: "columns wide = [''contract_id'', ''vintage'', ''registration_date'',
                ''contract_tenor_days'', ''company'']"
    by blast
  show ?thesis
    by (simp add: vintage_join_def w merge_left_def cw assms(1) trend_columns_def Let_def)
qed

lemma company_guard_rejoins:
  assumes "columns v =
             [''contract_id'', ''company_x'', ''month'', ''expected_payment'', ''total_paid'',
              ''missed_payment'', ''consec_missed'', ''PAR_bucket'', ''vintage'',
              ''registration_date'', ''contract_tenor_days'', ''company_y'']"
    and "set [''contract_id'', ''company''] \<subseteq> set (columns contracts_df)"
  shows "\<exists>g. company_guard v contracts_df = Inr g \<and> columns g = columns v @ [''company'']"
proof -
  from project_columns [OF assms(2)] obtain narrow
    where n: "project [''contract_id'', ''company''] contracts_df = Inr narrow"
      and cn: "columns narrow = [''contract_id'', ''company'']"
    by blast
  show ?thesis
    by (simp add: company_guard_def n merge_left_def cn assms(1) drop_columns_def Let_def)
qed

end
